theory Spec2Isabelle
  imports Main "HOL-Library.Sublist"
begin

section \<open>Values exchanged with ethers, the wallet and the node\<close>

text \<open>
  A thrown JavaScript error: the \<open>code\<close> that ethers attaches (absent on errors made with
  \<open>new Error(msg)\<close>) and the message.
\<close>

datatype error = Error (code: "string option") (message: string)

definition newError :: "string \<Rightarrow> error" where
  "newError msg = Error None msg"

text \<open>
  \<open>ethers.BigNumber\<close> is an unbounded signed integer. \<open>mul\<close> is exact; \<open>div\<close> truncates
  towards zero.
\<close>

definition bn_div :: "int \<Rightarrow> int \<Rightarrow> int" where
  "bn_div a b = sgn a * sgn b * (\<bar>a\<bar> div \<bar>b\<bar>)"

text \<open>The answer of \<open>provider.getFeeData()\<close>; a field is \<open>null\<close> when the node suggests nothing.\<close>

record feeData =
  fee_maxFeePerGas :: "int option"
  fee_maxPriorityFeePerGas :: "int option"

text \<open>The \<open>tx\<close> object of a quote: \<open>{ to, data, value, gas }\<close>, the numbers still strings.\<close>

record txData =
  tx_data :: string
  tx_to :: string
  tx_value :: "string option"
  tx_gas :: "string option"

text \<open>The request handed to \<open>wallet.sendTransaction\<close>.\<close>

record transaction =
  req_data :: string
  req_to :: string
  req_value :: int
  req_nonce :: nat
  req_gasLimit :: int
  req_maxFeePerGas :: int
  req_maxPriorityFeePerGas :: int

text \<open>The overrides handed to \<open>tokenContract.approve\<close>.\<close>

record overrides =
  ov_gasLimit :: int
  ov_maxFeePerGas :: int
  ov_maxPriorityFeePerGas :: int

record txResponse =
  hash :: string

record receipt =
  transactionHash :: string
  blockNumber :: nat

record network =
  network_name :: string
  network_chainId :: nat

record chainData =
  dexTokenApproveAddress :: "string option"

record apiResponse =
  api_data :: "chainData list option"

record token =
  tokenSymbol :: string
  decimal :: string

record routerResult =
  fromToken :: token
  toToken :: token
  fromTokenAmount :: string
  toTokenAmount :: string
  priceImpactPercentage :: string

record quoteData =
  quote_routerResult :: "routerResult option"
  quote_tx :: "txData option"

record swapResponseData =
  swap_data :: "quoteData list option"

record tokenDetails =
  symbol :: string
  amount :: string
  details_decimal :: string

record swapDetails =
  details_fromToken :: tokenDetails
  details_toToken :: tokenDetails
  priceImpact :: string

record swapResult =
  success :: bool
  transactionId :: string
  explorerUrl :: string
  details :: swapDetails

text \<open>
  \<open>OKXConfig\<close> and \<open>ChainConfig\<close>, as far as the two executors read them:
  \<open>config.evm?.wallet\<close> (with its \<open>address\<close>), \<open>networkConfig.maxRetries\<close> (a count, possibly
  unset) and \<open>networkConfig.explorer\<close>.
\<close>

record wallet =
  address :: string

record okxConfig =
  evm_wallet :: "wallet option"

record chainConfig =
  config_maxRetries :: "nat option"
  explorer :: string

section \<open>Effects: the node, the wallet and the clock\<close>

text \<open>
  Every call that leaves the process, together with what it answered, and every
  \<open>setTimeout\<close> delay (in milliseconds). \<open>AttemptFailed n e\<close> is the line the \<open>catch\<close> block of
  a retry loop prints (\<open>Transaction attempt n failed\<close>, \<open>Approval attempt n failed\<close>); the
  other console output is not modelled.
\<close>

datatype event =
    GetTransactionCount string "error + nat"
  | GetFeeData "error + feeData"
  | SendTransaction transaction "error + txResponse"
  | GetTransactionReceipt string "error + receipt option"
  | GetTransaction string "error + txResponse option"
  | GetNetwork "error + network"
  | SetTimeout nat
  | AttemptFailed nat error
  | HttpRequest string string string "error + apiResponse"
  | Allowance string string string "error + int"
  | Approve string string int overrides "error + txResponse"
  | Wait string "error + receipt"

text \<open>
  The collaborators, over a world \<open>'w\<close> that each call may change: the provider
  (\<open>getTransactionCount\<close>, \<open>getFeeData\<close>, \<open>getTransactionReceipt\<close>, \<open>getTransaction\<close>,
  \<open>getNetwork\<close>), the wallet (\<open>sendTransaction\<close>), the token contract (\<open>allowance\<close>,
  \<open>approve\<close>, and \<open>wait\<close> on the response of \<open>approve\<close>), the HTTP client (\<open>request\<close>), the
  clock (\<open>setTimeout\<close>), and the pure library functions \<open>BigNumber.from\<close> on a string
  (\<open>bigNumberFrom\<close>) and the fixed-point display of an amount (\<open>displayAmount\<close>, floating
  point in the source).
\<close>

record 'w env =
  getTransactionCount :: "string \<Rightarrow> 'w \<Rightarrow> (error + nat) \<times> 'w"
  getFeeData :: "'w \<Rightarrow> (error + feeData) \<times> 'w"
  sendTransaction :: "transaction \<Rightarrow> 'w \<Rightarrow> (error + txResponse) \<times> 'w"
  getTransactionReceipt :: "string \<Rightarrow> 'w \<Rightarrow> (error + receipt option) \<times> 'w"
  getTransaction :: "string \<Rightarrow> 'w \<Rightarrow> (error + txResponse option) \<times> 'w"
  getNetwork :: "'w \<Rightarrow> (error + network) \<times> 'w"
  setTimeout :: "nat \<Rightarrow> 'w \<Rightarrow> 'w"
  request :: "string \<Rightarrow> string \<Rightarrow> string \<Rightarrow> 'w \<Rightarrow> (error + apiResponse) \<times> 'w"
  allowance :: "string \<Rightarrow> string \<Rightarrow> string \<Rightarrow> 'w \<Rightarrow> (error + int) \<times> 'w"
  approve :: "string \<Rightarrow> string \<Rightarrow> int \<Rightarrow> overrides \<Rightarrow> 'w \<Rightarrow> (error + txResponse) \<times> 'w"
  wait :: "string \<Rightarrow> 'w \<Rightarrow> (error + receipt) \<times> 'w"
  bigNumberFrom :: "string \<Rightarrow> error + int"
  displayAmount :: "string \<Rightarrow> string \<Rightarrow> string"

text \<open>
  An \<open>async\<close> computation: from a world to its result (\<open>Inl\<close> a thrown error), the world
  after it, and the events it caused, in order.
\<close>

type_synonym ('a, 'w) io = "'w \<Rightarrow> (error + 'a) \<times> 'w \<times> event list"

definition result :: "(error + 'a) \<times> 'w \<times> event list \<Rightarrow> error + 'a" where
  "result r = fst r"

definition events :: "(error + 'a) \<times> 'w \<times> event list \<Rightarrow> event list" where
  "events r = snd (snd r)"

definition resolve :: "'a \<Rightarrow> ('a, 'w) io" where
  "resolve a w = (Inr a, w, [])"

definition throw :: "error \<Rightarrow> ('a, 'w) io" where
  "throw e w = (Inl e, w, [])"

definition fromResult :: "error + 'a \<Rightarrow> ('a, 'w) io" where
  "fromResult r w = (r, w, [])"

definition call :: "('w \<Rightarrow> (error + 'a) \<times> 'w) \<Rightarrow> (error + 'a \<Rightarrow> event) \<Rightarrow> ('a, 'w) io" where
  "call f ev w = (case f w of (r, w') \<Rightarrow> (r, w', [ev r]))"

definition sleep :: "'w env \<Rightarrow> nat \<Rightarrow> (unit, 'w) io" where
  "sleep env ms w = (Inr (), setTimeout env ms w, [SetTimeout ms])"

text \<open>\<open>const x = await m; f x\<close>: a rejection of \<open>m\<close> skips \<open>f\<close>.\<close>

definition await :: "('a, 'w) io \<Rightarrow> ('a \<Rightarrow> ('b, 'w) io) \<Rightarrow> ('b, 'w) io" where
  "await m f w =
     (case m w of
        (Inl e, w1, t1) \<Rightarrow> (Inl e, w1, t1)
      | (Inr a, w1, t1) \<Rightarrow> (case f a w1 of (r, w2, t2) \<Rightarrow> (r, w2, t1 @ t2)))"

section \<open>evm-swap.ts: EVMSwapExecutor\<close>

definition maxAttempts :: nat where
  "maxAttempts = 30"

definition gasMultiplier :: int where
  "gasMultiplier = 110"

text \<open>\<open>networkConfig.maxRetries || 3\<close>: unset and \<open>0\<close> are both falsy.\<close>

definition maxRetriesOr3 :: "chainConfig \<Rightarrow> nat" where
  "maxRetriesOr3 networkConfig =
     (case config_maxRetries networkConfig of
        None \<Rightarrow> 3
      | Some n \<Rightarrow> if n = 0 then 3 else n)"

text \<open>
  \<open>feeData.maxFeePerGas || BigNumber.from(0)\<close> and
  \<open>feeData.maxPriorityFeePerGas || BigNumber.from("3000000000")\<close>: a BigNumber is an object,
  hence truthy even when zero, so only \<open>null\<close> takes the fallback.
\<close>

definition baseFeeOf :: "feeData \<Rightarrow> int" where
  "baseFeeOf fd = (case fee_maxFeePerGas fd of Some f \<Rightarrow> f | None \<Rightarrow> 0)"

definition priorityFeeOf :: "feeData \<Rightarrow> int" where
  "priorityFeeOf fd = (case fee_maxPriorityFeePerGas fd of Some f \<Rightarrow> f | None \<Rightarrow> 3000000000)"

text \<open>
  \<open>tx.value ? BigNumber.from(tx.value) : BigNumber.from(0)\<close> and
  \<open>BigNumber.from(tx.gas || 0)\<close>: an absent or empty string is falsy; \<open>BigNumber.from\<close>
  throws on a string that is no number.
\<close>

definition bigNumberOr0 :: "'w env \<Rightarrow> string option \<Rightarrow> error + int" where
  "bigNumberOr0 env s =
     (case s of
        None \<Rightarrow> Inr 0
      | Some v \<Rightarrow> if v = [] then Inr 0 else bigNumberFrom env v)"

text \<open>
  Lines 107 to 144: the confirmation polling loop of one attempt. \<open>attempts\<close> is the
  loop counter.
\<close>

function pollReceipt :: "'w env \<Rightarrow> string \<Rightarrow> nat \<Rightarrow> (receipt, 'w) io" where
  "pollReceipt env h attempts w =
     (if attempts < maxAttempts then
        (case call (getTransactionReceipt env h) (GetTransactionReceipt h) w of
           (Inl e, w1, t1) \<Rightarrow> (Inl e, w1, t1)
         | (Inr (Some receipt), w1, t1) \<Rightarrow> (Inr receipt, w1, t1)
         | (Inr None, w1, t1) \<Rightarrow>
             (case call (getTransaction env h) (GetTransaction h) w1 of
                (Inl e, w2, t2) \<Rightarrow> (Inl e, w2, t1 @ t2)
              | (Inr None, w2, t2) \<Rightarrow>
                  (case call (getNetwork env) GetNetwork w2 of
                     (Inl e, w3, t3) \<Rightarrow> (Inl e, w3, t1 @ t2 @ t3)
                   | (Inr network, w3, t3) \<Rightarrow>
                       (Inl (newError ''Transaction dropped - check network and gas prices''),
                        w3, t1 @ t2 @ t3))
              | (Inr (Some pendingTx), w2, t2) \<Rightarrow>
                  (case pollReceipt env h (attempts + 1) (setTimeout env 2000 w2) of
                     (r, w3, t3) \<Rightarrow> (r, w3, t1 @ t2 @ SetTimeout 2000 # t3))))
      else
        (Inl (newError ''Transaction confirmation timed out - check explorer for status''),
         w, []))"
  by pat_completeness auto
termination
  by (relation "measure (\<lambda>(env, h, attempts, w). maxAttempts - attempts)") auto

text \<open>Lines 104 to 144: the initial delay, then the polling loop from \<open>attempts = 0\<close>.\<close>

definition awaitConfirmation :: "'w env \<Rightarrow> string \<Rightarrow> (receipt, 'w) io" where
  "awaitConfirmation env h = await (sleep env 5000) (\<lambda>_. pollReceipt env h 0)"

text \<open>Lines 71 to 87: the transaction object of one attempt.\<close>

definition buildTransaction :: "txData \<Rightarrow> int \<Rightarrow> nat \<Rightarrow> int \<Rightarrow> feeData \<Rightarrow> transaction" where
  "buildTransaction tx val nonce gas feeData =
     \<lparr> req_data = tx_data tx,
       req_to = tx_to tx,
       req_value = val,
       req_nonce = nonce,
       req_gasLimit = bn_div (gas * gasMultiplier) 100,
       req_maxFeePerGas = bn_div (baseFeeOf feeData * gasMultiplier) 100,
       req_maxPriorityFeePerGas = bn_div (priorityFeeOf feeData * gasMultiplier) 100 \<rparr>"

text \<open>
  Lines 60 to 144: the body of the \<open>try\<close> block, one attempt. The provider is asked for
  the transaction count with the single argument \<open>"latest"\<close>.
\<close>

definition evmAttempt :: "'w env \<Rightarrow> txData \<Rightarrow> nat \<Rightarrow> (receipt, 'w) io" where
  "evmAttempt env tx retryCount =
     await (call (getTransactionCount env ''latest'') (GetTransactionCount ''latest'')) (\<lambda>nonce.
     await (call (getFeeData env) GetFeeData) (\<lambda>feeData.
     await (fromResult (bigNumberOr0 env (tx_value tx))) (\<lambda>val.
     await (fromResult (bigNumberOr0 env (tx_gas tx))) (\<lambda>gas.
       let transaction = buildTransaction tx val (nonce + retryCount) gas feeData in
     await (call (sendTransaction env transaction) (SendTransaction transaction)) (\<lambda>response.
     awaitConfirmation env (hash response))))))"

text \<open>
  Lines 58 to 170: the retry loop with its \<open>catch\<close> block. \<open>retryCount\<close> is the loop
  variable, incremented on every caught error.
\<close>

function evmRetryLoop :: "'w env \<Rightarrow> nat \<Rightarrow> txData \<Rightarrow> nat \<Rightarrow> (receipt, 'w) io" where
  "evmRetryLoop env maxRetries tx retryCount w =
     (if retryCount < maxRetries then
        (case evmAttempt env tx retryCount w of
           (Inr receipt, w1, t1) \<Rightarrow> (Inr receipt, w1, t1)
         | (Inl error, w1, t1) \<Rightarrow>
             (let retryCount' = retryCount + 1;
                  t2 = t1 @ [AttemptFailed retryCount' error]
              in
                if code error = Some ''INSUFFICIENT_FUNDS'' then
                  (Inl (newError ''Insufficient funds for transaction''), w1, t2)
                else if code error = Some ''NONCE_EXPIRED'' then
                  (Inl (newError ''Transaction nonce expired''), w1, t2)
                else if retryCount' = maxRetries then
                  (Inl error, w1, t2)
                else
                  (case evmRetryLoop env maxRetries tx retryCount'
                          (setTimeout env (2000 * retryCount') w1) of
                     (r, w2, t3) \<Rightarrow> (r, w2, t2 @ SetTimeout (2000 * retryCount') # t3))))
      else
        (Inl (newError ''Max retries exceeded''), w, []))"
  by pat_completeness auto
termination
  by (relation "measure (\<lambda>(env, maxRetries, tx, retryCount, w). maxRetries - retryCount)") auto

definition executeEvmTransaction ::
  "'w env \<Rightarrow> okxConfig \<Rightarrow> chainConfig \<Rightarrow> txData \<Rightarrow> (receipt, 'w) io" where
  "executeEvmTransaction env config networkConfig tx =
     (case evm_wallet config of
        None \<Rightarrow> throw (newError ''EVM wallet required'')
      | Some _ \<Rightarrow> evmRetryLoop env (maxRetriesOr3 networkConfig) tx 0)"

definition formatSwapResult ::
  "'w env \<Rightarrow> chainConfig \<Rightarrow> string \<Rightarrow> routerResult \<Rightarrow> swapResult" where
  "formatSwapResult env networkConfig txHash rr =
     \<lparr> success = True,
       transactionId = txHash,
       explorerUrl = explorer networkConfig @ ''/'' @ txHash,
       details = \<lparr>
         details_fromToken = \<lparr>
           symbol = tokenSymbol (fromToken rr),
           amount = displayAmount env (fromTokenAmount rr) (decimal (fromToken rr)),
           details_decimal = decimal (fromToken rr) \<rparr>,
         details_toToken = \<lparr>
           symbol = tokenSymbol (toToken rr),
           amount = displayAmount env (toTokenAmount rr) (decimal (toToken rr)),
           details_decimal = decimal (toToken rr) \<rparr>,
         priceImpact = priceImpactPercentage rr \<rparr> \<rparr>"

text \<open>
  \<open>EVMSwapExecutor.executeSwap\<close>: \<open>swapData.data?.[0]\<close>, the two guards, then the
  transaction; the \<open>catch\<close> only logs and rethrows.
\<close>

definition EVMSwapExecutor_executeSwap ::
  "'w env \<Rightarrow> okxConfig \<Rightarrow> chainConfig \<Rightarrow> swapResponseData \<Rightarrow> (swapResult, 'w) io" where
  "EVMSwapExecutor_executeSwap env config networkConfig swapData =
     (case (case swap_data swapData of
              None \<Rightarrow> None
            | Some [] \<Rightarrow> None
            | Some (q # _) \<Rightarrow> Some q) of
        None \<Rightarrow> throw (newError ''Invalid swap data: missing router result'')
      | Some quoteData \<Rightarrow>
          (case quote_routerResult quoteData of
             None \<Rightarrow> throw (newError ''Invalid swap data: missing router result'')
           | Some rr \<Rightarrow>
               (case quote_tx quoteData of
                  None \<Rightarrow> throw (newError ''Missing transaction data'')
                | Some tx \<Rightarrow>
                    await (executeEvmTransaction env config networkConfig tx) (\<lambda>res.
                    resolve (formatSwapResult env networkConfig (transactionHash res) rr)))))"

section \<open>evm-approve.ts: EVMApproveExecutor\<close>

definition DEFAULT_GAS_MULTIPLIER :: int where
  "DEFAULT_GAS_MULTIPLIER = 150"

text \<open>\<open>EVMApproveExecutor.executeSwap\<close>: the body is a single \<open>throw\<close>.\<close>

definition EVMApproveExecutor_executeSwap ::
  "'w env \<Rightarrow> okxConfig \<Rightarrow> chainConfig \<Rightarrow> swapResponseData \<Rightarrow> 'p \<Rightarrow> (swapResult, 'w) io" where
  "EVMApproveExecutor_executeSwap env config networkConfig swapData params =
     throw (newError ''Swap execution not supported in approval executor'')"

definition getAllowance :: "'w env \<Rightarrow> string \<Rightarrow> string \<Rightarrow> string \<Rightarrow> (int, 'w) io" where
  "getAllowance env tokenAddress ownerAddress spenderAddress =
     call (allowance env tokenAddress ownerAddress spenderAddress)
          (Allowance tokenAddress ownerAddress spenderAddress)"

text \<open>
  \<open>getDexContractAddress\<close>: the request, then \<open>response.data?.[0]?.dexTokenApproveAddress\<close>,
  which is falsy when any link is missing or the address is the empty string; the \<open>catch\<close>
  only logs and rethrows.
\<close>

definition getDexContractAddress :: "'w env \<Rightarrow> string \<Rightarrow> (string, 'w) io" where
  "getDexContractAddress env chainId =
     await (call (request env ''GET'' ''/api/v5/dex/aggregator/supported/chain'' chainId)
                 (HttpRequest ''GET'' ''/api/v5/dex/aggregator/supported/chain'' chainId))
       (\<lambda>response.
          (case (case api_data response of
                   None \<Rightarrow> None
                 | Some [] \<Rightarrow> None
                 | Some (c # _) \<Rightarrow> dexTokenApproveAddress c) of
             None \<Rightarrow> throw (newError (''No dex contract address found for chain '' @ chainId))
           | Some a \<Rightarrow>
               if a = [] then
                 throw (newError (''No dex contract address found for chain '' @ chainId))
               else resolve a))"

text \<open>Lines 159 to 167: the overrides of one approval attempt.\<close>

definition approvalOverrides :: "feeData \<Rightarrow> overrides" where
  "approvalOverrides feeData =
     \<lparr> ov_gasLimit = 100000,
       ov_maxFeePerGas = bn_div (baseFeeOf feeData * DEFAULT_GAS_MULTIPLIER) 100,
       ov_maxPriorityFeePerGas = bn_div (priorityFeeOf feeData * DEFAULT_GAS_MULTIPLIER) 100 \<rparr>"

text \<open>Lines 152 to 177: the body of the \<open>try\<close> block, one approval attempt.\<close>

definition approvalAttempt :: "'w env \<Rightarrow> string \<Rightarrow> string \<Rightarrow> int \<Rightarrow> (receipt, 'w) io" where
  "approvalAttempt env tokenAddress spenderAddress amt =
     await (call (getFeeData env) GetFeeData) (\<lambda>feeData.
     await (call (approve env tokenAddress spenderAddress amt (approvalOverrides feeData))
                 (Approve tokenAddress spenderAddress amt (approvalOverrides feeData))) (\<lambda>tx.
     call (wait env (hash tx)) (Wait (hash tx))))"

text \<open>Lines 150 to 190: the retry loop; its \<open>catch\<close> block looks at no error code.\<close>

function approvalRetryLoop ::
  "'w env \<Rightarrow> nat \<Rightarrow> string \<Rightarrow> string \<Rightarrow> int \<Rightarrow> nat \<Rightarrow> (receipt, 'w) io" where
  "approvalRetryLoop env maxRetries tokenAddress spenderAddress amt retryCount w =
     (if retryCount < maxRetries then
        (case approvalAttempt env tokenAddress spenderAddress amt w of
           (Inr receipt, w1, t1) \<Rightarrow> (Inr receipt, w1, t1)
         | (Inl error, w1, t1) \<Rightarrow>
             (let retryCount' = retryCount + 1;
                  t2 = t1 @ [AttemptFailed retryCount' error]
              in
                if retryCount' = maxRetries then
                  (Inl error, w1, t2)
                else
                  (case approvalRetryLoop env maxRetries tokenAddress spenderAddress amt
                          retryCount' (setTimeout env (2000 * retryCount') w1) of
                     (r, w2, t3) \<Rightarrow> (r, w2, t2 @ SetTimeout (2000 * retryCount') # t3))))
      else
        (Inl (newError ''Max retries exceeded for approval transaction''), w, []))"
  by pat_completeness auto
termination
  by (relation "measure (\<lambda>(env, maxRetries, t, s, a, retryCount, w). maxRetries - retryCount)")
     auto

definition executeApprovalTransaction ::
  "'w env \<Rightarrow> okxConfig \<Rightarrow> chainConfig \<Rightarrow> string \<Rightarrow> string \<Rightarrow> int \<Rightarrow> (receipt, 'w) io" where
  "executeApprovalTransaction env config networkConfig tokenAddress spenderAddress amt =
     (case evm_wallet config of
        None \<Rightarrow> throw (newError ''EVM wallet required'')
      | Some _ \<Rightarrow>
          approvalRetryLoop env (maxRetriesOr3 networkConfig) tokenAddress spenderAddress amt 0)"

text \<open>
  \<open>handleTokenApproval\<close>; the result \<open>{ transactionHash }\<close> is the hash itself. The
  \<open>catch\<close> around the approval only logs and rethrows.
\<close>

definition handleTokenApproval ::
  "'w env \<Rightarrow> okxConfig \<Rightarrow> chainConfig \<Rightarrow> string \<Rightarrow> string \<Rightarrow> string \<Rightarrow> (string, 'w) io" where
  "handleTokenApproval env config networkConfig chainId tokenAddress amt =
     (case evm_wallet config of
        None \<Rightarrow> throw (newError ''EVM wallet required'')
      | Some wal \<Rightarrow>
          await (getDexContractAddress env chainId) (\<lambda>dexContractAddress.
          await (getAllowance env tokenAddress (address wal) dexContractAddress)
            (\<lambda>currentAllowance.
          await (fromResult (bigNumberFrom env amt)) (\<lambda>requiredAmount.
            if currentAllowance \<ge> requiredAmount then
              throw (newError ''Token already approved for the requested amount'')
            else
              await (executeApprovalTransaction env config networkConfig tokenAddress
                       dexContractAddress requiredAmount) (\<lambda>res.
              resolve (transactionHash res))))))"

section \<open>Observations on the events of a run\<close>

text \<open>The events of the confirmation polling: receipt, pending-pool and network queries, delays.\<close>

fun isPollEvent :: "event \<Rightarrow> bool" where
  "isPollEvent (GetTransactionReceipt h r) = True"
| "isPollEvent (GetTransaction h r) = True"
| "isPollEvent (GetNetwork r) = True"
| "isPollEvent (SetTimeout ms) = True"
| "isPollEvent _ = False"



text \<open>A completed round of the polling loop: no receipt, the transaction still pending.\<close>

fun isPendingCheck :: "event \<Rightarrow> bool" where
  "isPendingCheck (GetTransaction h (Inr (Some p))) = True"
| "isPendingCheck _ = False"

definition pendingChecks :: "event list \<Rightarrow> nat" where
  "pendingChecks evs = length (filter isPendingCheck evs)"

text \<open>A submission is a call of \<open>wallet.sendTransaction\<close> or of \<open>tokenContract.approve\<close>.\<close>

fun isSubmission :: "event \<Rightarrow> bool" where
  "isSubmission (SendTransaction t r) = True"
| "isSubmission (Approve tok sp a ov r) = True"
| "isSubmission _ = False"

definition submissions :: "event list \<Rightarrow> nat" where
  "submissions evs = length (filter isSubmission evs)"

fun isFailure :: "event \<Rightarrow> bool" where
  "isFailure (AttemptFailed n e) = True"
| "isFailure _ = False"

text \<open>
  \<open>sequential\<close>: no submission while an earlier one is in flight, where a submission stays
  in flight until its attempt is reported failed. \<open>nonceRule n c\<close>: every transaction sent
  carries the count last reported in its attempt plus the number \<open>n\<close> of attempts failed
  before. \<open>feeRule m fd\<close>: every submission bids the fee data last fetched in its attempt,
  times \<open>m\<close>, divided by 100. \<open>feeOutage\<close>: a failed fee query is followed at once by the
  failure of its attempt, with the same error.
\<close>

fun sequential :: "bool \<Rightarrow> event list \<Rightarrow> bool" where
  "sequential inFlight [] = True"
| "sequential inFlight (SendTransaction t r # es) = (\<not> inFlight \<and> sequential True es)"
| "sequential inFlight (Approve tok sp a ov r # es) = (\<not> inFlight \<and> sequential True es)"
| "sequential inFlight (AttemptFailed n e # es) = sequential False es"
| "sequential inFlight (e # es) = sequential inFlight es"

fun nonceRule :: "nat \<Rightarrow> nat option \<Rightarrow> event list \<Rightarrow> bool" where
  "nonceRule n c [] = True"
| "nonceRule n c (GetTransactionCount a r # es) =
     nonceRule n (case r of Inl e \<Rightarrow> None | Inr k \<Rightarrow> Some k) es"
| "nonceRule n c (SendTransaction t r # es) =
     (map_option (\<lambda>k. k + n) c = Some (req_nonce t) \<and> nonceRule n c es)"
| "nonceRule n c (AttemptFailed k e # es) = nonceRule (Suc n) None es"
| "nonceRule n c (e # es) = nonceRule n c es"

fun counts :: "event list \<Rightarrow> nat list" where
  "counts [] = []"
| "counts (GetTransactionCount a (Inr c) # es) = c # counts es"
| "counts (e # es) = counts es"

fun nonces :: "event list \<Rightarrow> nat list" where
  "nonces [] = []"
| "nonces (SendTransaction t r # es) = req_nonce t # nonces es"
| "nonces (e # es) = nonces es"

fun feeRule :: "int \<Rightarrow> feeData option \<Rightarrow> event list \<Rightarrow> bool" where
  "feeRule m fd [] = True"
| "feeRule m fd (GetFeeData r # es) =
     feeRule m (case r of Inl e \<Rightarrow> None | Inr f \<Rightarrow> Some f) es"
| "feeRule m fd (SendTransaction t r # es) =
     ((case fd of
         None \<Rightarrow> False
       | Some f \<Rightarrow> req_maxFeePerGas t = bn_div (baseFeeOf f * m) 100
                 \<and> req_maxPriorityFeePerGas t = bn_div (priorityFeeOf f * m) 100)
      \<and> feeRule m fd es)"
| "feeRule m fd (Approve tok sp a ov r # es) =
     ((case fd of
         None \<Rightarrow> False
       | Some f \<Rightarrow> ov_maxFeePerGas ov = bn_div (baseFeeOf f * m) 100
                 \<and> ov_maxPriorityFeePerGas ov = bn_div (priorityFeeOf f * m) 100)
      \<and> feeRule m fd es)"
| "feeRule m fd (AttemptFailed k e # es) = feeRule m None es"
| "feeRule m fd (e # es) = feeRule m fd es"

fun feeOutage :: "error option \<Rightarrow> event list \<Rightarrow> bool" where
  "feeOutage p [] = (p = None)"
| "feeOutage p (GetFeeData r # es) =
     (p = None \<and> feeOutage (case r of Inl e \<Rightarrow> Some e | Inr f \<Rightarrow> None) es)"
| "feeOutage p (AttemptFailed k e # es) = ((p = None \<or> p = Some e) \<and> feeOutage None es)"
| "feeOutage p (e # es) = (p = None \<and> feeOutage p es)"

text \<open>What the node suggested and what was bid, in order, over a run.\<close>

fun baseSuggested :: "event \<Rightarrow> int list" where
  "baseSuggested (GetFeeData (Inr f)) = [baseFeeOf f]"
| "baseSuggested _ = []"

fun prioritySuggested :: "event \<Rightarrow> int list" where
  "prioritySuggested (GetFeeData (Inr f)) = [priorityFeeOf f]"
| "prioritySuggested _ = []"

fun baseBid :: "event \<Rightarrow> int list" where
  "baseBid (SendTransaction t r) = [req_maxFeePerGas t]"
| "baseBid (Approve tok sp a ov r) = [ov_maxFeePerGas ov]"
| "baseBid _ = []"

fun priorityBid :: "event \<Rightarrow> int list" where
  "priorityBid (SendTransaction t r) = [req_maxPriorityFeePerGas t]"
| "priorityBid (Approve tok sp a ov r) = [ov_maxPriorityFeePerGas ov]"
| "priorityBid _ = []"

definition collect :: "(event \<Rightarrow> 'a list) \<Rightarrow> event list \<Rightarrow> 'a list" where
  "collect f evs = concat (map f evs)"

text \<open>The hashes the wallet returned for the transactions it accepted.\<close>

fun submittedHash :: "event \<Rightarrow> string list" where
  "submittedHash (SendTransaction t (Inr resp)) = [hash resp]"
| "submittedHash _ = []"

section \<open>Concrete nodes for the examples\<close>

text \<open>
  The world is the clock in milliseconds: only \<open>setTimeout\<close> advances it. On
  \<open>droppingNode\<close> a submitted transaction is unknown to the pending pool, and the suggested
  base fee falls from 2000 to 1000 after seven seconds, with no priority fee suggested. On
  \<open>pendingNode\<close> it stays pending for ever; on \<open>confirmingNode\<close> its receipt appears
  nine seconds after the start.
\<close>

definition demoReceipt :: "string \<Rightarrow> receipt" where
  "demoReceipt h = \<lparr> transactionHash = h, blockNumber = 19000000 \<rparr>"

definition droppingNode :: "nat env" where
  "droppingNode = \<lparr>
     getTransactionCount = (\<lambda>a t. (Inr 7, t)),
     getFeeData = (\<lambda>t. (Inr \<lparr> fee_maxFeePerGas = Some (if t < 7000 then 2000 else 1000),
                               fee_maxPriorityFeePerGas = None \<rparr>, t)),
     sendTransaction = (\<lambda>tx t. (Inr \<lparr> hash = ''0xabc'' \<rparr>, t)),
     getTransactionReceipt = (\<lambda>h t. (Inr None, t)),
     getTransaction = (\<lambda>h t. (Inr None, t)),
     getNetwork = (\<lambda>t. (Inr \<lparr> network_name = ''homestead'', network_chainId = 1 \<rparr>, t)),
     setTimeout = (\<lambda>ms t. t + ms),
     request = (\<lambda>m p c t.
       (Inr \<lparr> api_data = Some [\<lparr> dexTokenApproveAddress = Some ''0xdex'' \<rparr>] \<rparr>, t)),
     allowance = (\<lambda>tok own sp t. (Inr 0, t)),
     approve = (\<lambda>tok sp a ov t. (Inr \<lparr> hash = ''0xdef'' \<rparr>, t)),
     wait = (\<lambda>h t. (Inr (demoReceipt h), t)),
     bigNumberFrom = (\<lambda>s. if s = ''50'' then Inr 50 else if s = ''21000'' then Inr 21000
                         else Inl (Error (Some ''INVALID_ARGUMENT'') ''invalid BigNumber string'')),
     displayAmount = (\<lambda>a d. a) \<rparr>"

definition pendingNode :: "nat env" where
  "pendingNode = droppingNode \<lparr> getTransaction := (\<lambda>h t. (Inr (Some \<lparr> hash = h \<rparr>), t)) \<rparr>"

definition confirmingNode :: "nat env" where
  "confirmingNode = pendingNode \<lparr>
     getTransactionReceipt := (\<lambda>h t. (if t < 9000 then Inr None else Inr (Some (demoReceipt h)), t)) \<rparr>"

definition demoTx :: txData where
  "demoTx = \<lparr> tx_data = ''0x'', tx_to = ''0xrouter'', tx_value = None, tx_gas = Some ''21000'' \<rparr>"

definition demoConfig :: okxConfig where
  "demoConfig = \<lparr> evm_wallet = Some \<lparr> address = ''0xme'' \<rparr> \<rparr>"

definition demoChain :: "nat option \<Rightarrow> chainConfig" where
  "demoChain m = \<lparr> config_maxRetries = m, explorer = ''https://etherscan.io/tx'' \<rparr>"

text \<open>
  \<open>risingNode\<close> suggests a base fee that grows with the clock. On \<open>feeOutageNode\<close> the
  fee query fails. On \<open>insufficientNode\<close> the wallet and the token contract reject every
  submission for insufficient funds. On \<open>approvedNode\<close> the allowance is already 100.
\<close>

definition risingNode :: "nat env" where
  "risingNode = droppingNode \<lparr>
     getFeeData := (\<lambda>t. (Inr \<lparr> fee_maxFeePerGas = Some (1000 + int t),
                               fee_maxPriorityFeePerGas = Some 5 \<rparr>, t)) \<rparr>"

definition feeOutageNode :: "nat env" where
  "feeOutageNode = droppingNode \<lparr>
     getFeeData := (\<lambda>t. (Inl (Error (Some ''SERVER_ERROR'') ''missing response''), t)) \<rparr>"

definition insufficientNode :: "nat env" where
  "insufficientNode = droppingNode \<lparr>
     approve := (\<lambda>tok sp a ov t.
       (Inl (Error (Some ''INSUFFICIENT_FUNDS'')
               ''insufficient funds for intrinsic transaction cost''), t)),
     sendTransaction := (\<lambda>tx t.
       (Inl (Error (Some ''INSUFFICIENT_FUNDS'')
               ''insufficient funds for intrinsic transaction cost''), t)) \<rparr>"

definition approvedNode :: "nat env" where
  "approvedNode = droppingNode \<lparr> allowance := (\<lambda>tok own sp t. (Inr 100, t)) \<rparr>"


definition addressKeyedNode :: "nat env" where
  "addressKeyedNode = droppingNode \<lparr>
     getTransactionCount := (\<lambda>a t.
       (if a = ''0xme'' then Inr 7
        else Inl (Error (Some ''UNSUPPORTED_OPERATION'') ''ENS name not configured''), t)) \<rparr>"

definition otherCountNode :: "nat env" where
  "otherCountNode = droppingNode \<lparr>
     getTransactionCount := (\<lambda>a t. (if a = ''0xme'' then Inr 7 else Inr 1000, t)) \<rparr>"

definition fallingCountNode :: "nat env" where
  "fallingCountNode = droppingNode \<lparr>
     getTransactionCount := (\<lambda>a t. (Inr (if t < 7000 then 7 else 5), t)) \<rparr>"

definition demoSwap :: swapResponseData where
  "demoSwap = \<lparr> swap_data = Some [\<lparr>
     quote_routerResult = Some \<lparr>
       fromToken = \<lparr> tokenSymbol = ''ETH'', decimal = ''18'' \<rparr>,
       toToken = \<lparr> tokenSymbol = ''USDC'', decimal = ''6'' \<rparr>,
       fromTokenAmount = ''1000000000000000000'',
       toTokenAmount = ''2500000000'',
       priceImpactPercentage = ''-0.01'' \<rparr>,
     quote_tx = Some demoTx \<rparr>] \<rparr>"

definition demoResult :: swapResult where
  "demoResult = \<lparr>
     success = True,
     transactionId = ''0xabc'',
     explorerUrl = ''https://etherscan.io/tx/0xabc'',
     details = \<lparr>
       details_fromToken =
         \<lparr> symbol = ''ETH'', amount = ''1000000000000000000'', details_decimal = ''18'' \<rparr>,
       details_toToken =
         \<lparr> symbol = ''USDC'', amount = ''2500000000'', details_decimal = ''6'' \<rparr>,
       priceImpact = ''-0.01'' \<rparr> \<rparr>"

section \<open>Properties of the polling loop\<close>

declare pollReceipt.simps [simp del] evmRetryLoop.simps [simp del]
  approvalRetryLoop.simps [simp del]

lemma collect_simps [simp]:
  "collect f [] = []" "collect f (e # es) = f e @ collect f es"
  by (simp_all add: collect_def)

lemma poll_events_shape: "list_all isPollEvent (events (pollReceipt env h a w))"
proof (induction env h a w rule: pollReceipt.induct)
  case (1 env h attempts w)
  show ?case
    apply (subst pollReceipt.simps)
    using 1
    apply (auto simp: events_def call_def split: prod.splits sum.splits option.splits)
    done
qed


lemma pollReceipt_done:
  "\<not> a < maxAttempts \<Longrightarrow>
   pollReceipt env h a w =
     (Inl (newError ''Transaction confirmation timed out - check explorer for status''), w, [])"
  by (subst pollReceipt.simps) simp

lemma pollReceipt_step [consumes 1, case_names ReceiptError Confirmed PendingError NetworkError Dropped Pending]:
  assumes "a < maxAttempts"
  obtains
    (ReceiptError) e w1 where
      "pollReceipt env h a w = (Inl e, w1, [GetTransactionReceipt h (Inl e)])"
  | (Confirmed) r w1 where
      "pollReceipt env h a w = (Inr r, w1, [GetTransactionReceipt h (Inr (Some r))])"
  | (PendingError) e w2 where
      "pollReceipt env h a w =
         (Inl e, w2, [GetTransactionReceipt h (Inr None), GetTransaction h (Inl e)])"
  | (NetworkError) e w3 where
      "pollReceipt env h a w =
         (Inl e, w3, [GetTransactionReceipt h (Inr None), GetTransaction h (Inr None),
                      GetNetwork (Inl e)])"
  | (Dropped) n w3 where
      "pollReceipt env h a w =
         (Inl (newError ''Transaction dropped - check network and gas prices''), w3,
          [GetTransactionReceipt h (Inr None), GetTransaction h (Inr None),
           GetNetwork (Inr n)])"
  | (Pending) p w2 r w3 t3 where
      "pollReceipt env h (a + 1) (setTimeout env 2000 w2) = (r, w3, t3)"
      "pollReceipt env h a w =
         (r, w3, GetTransactionReceipt h (Inr None) # GetTransaction h (Inr (Some p))
                   # SetTimeout 2000 # t3)"
proof -
  obtain x w1 where r1: "getTransactionReceipt env h w = (x, w1)" by (cases "getTransactionReceipt env h w")
  obtain y w2 where r2: "getTransaction env h w1 = (y, w2)" by (cases "getTransaction env h w1")
  obtain z w3 where r3: "getNetwork env w2 = (z, w3)" by (cases "getNetwork env w2")
  obtain r w4 t4 where r4: "pollReceipt env h (a + 1) (setTimeout env 2000 w2) = (r, w4, t4)"
    by (cases "pollReceipt env h (a + 1) (setTimeout env 2000 w2)")
  show thesis
  proof (cases x)
    case (Inl e)
    with assms r1 have "pollReceipt env h a w = (Inl e, w1, [GetTransactionReceipt h (Inl e)])"
      by (subst pollReceipt.simps) (simp add: call_def)
    then show thesis by (rule ReceiptError)
  next
    case (Inr ro)
    show thesis
    proof (cases ro)
      case (Some rc)
      with assms r1 Inr have
        "pollReceipt env h a w = (Inr rc, w1, [GetTransactionReceipt h (Inr (Some rc))])"
        by (subst pollReceipt.simps) (simp add: call_def)
      then show thesis by (rule Confirmed)
    next
      case None
      show thesis
      proof (cases y)
        case (Inl e)
        with assms r1 r2 Inr None have
          "pollReceipt env h a w =
             (Inl e, w2, [GetTransactionReceipt h (Inr None), GetTransaction h (Inl e)])"
          by (subst pollReceipt.simps) (simp add: call_def)
        then show thesis by (rule PendingError)
      next
        case yr: (Inr po)
        show thesis
        proof (cases po)
          case (Some p)
          with assms r1 r2 r4 Inr None yr have
            "pollReceipt env h a w =
               (r, w4, GetTransactionReceipt h (Inr None) # GetTransaction h (Inr (Some p))
                   # SetTimeout 2000 # t4)"
            by (subst pollReceipt.simps) (simp add: call_def)
          with r4 show thesis by (rule Pending)
        next
          case pn: None
          show thesis
          proof (cases z)
            case (Inl e)
            with assms r1 r2 r3 Inr None yr pn have
              "pollReceipt env h a w =
                 (Inl e, w3, [GetTransactionReceipt h (Inr None), GetTransaction h (Inr None),
                      GetNetwork (Inl e)])"
              by (subst pollReceipt.simps) (simp add: call_def)
            then show thesis by (rule NetworkError)
          next
            case zr: (Inr n)
            with assms r1 r2 r3 Inr None yr pn have
              "pollReceipt env h a w =
                 (Inl (newError ''Transaction dropped - check network and gas prices''), w3,
                  [GetTransactionReceipt h (Inr None), GetTransaction h (Inr None),
                   GetNetwork (Inr n)])"
              by (subst pollReceipt.simps) (simp add: call_def)
            then show thesis by (rule Dropped)
          qed
        qed
      qed
    qed
  qed
qed



lemma poll_pending_bound:
  "pendingChecks (events (pollReceipt env h a w)) \<le> maxAttempts - a"
proof (induction "maxAttempts - a" arbitrary: a w)
  case 0
  then show ?case by (simp add: pollReceipt_done events_def pendingChecks_def)
next
  case (Suc k)
  then have lt: "a < maxAttempts" by simp
  from lt show ?case
  proof (cases rule: pollReceipt_step [where env = env and h = h and w = w])
    case (Pending p w2 r' w3 t3)
    from Suc.hyps(2) have "k = maxAttempts - (a + 1)" by simp
    from Suc.hyps(1) [OF this, of "setTimeout env 2000 w2"] Pending lt
    show ?thesis by (simp add: events_def pendingChecks_def)
  qed (simp_all add: events_def pendingChecks_def)
qed


section \<open>Properties of one attempt and of the retry loops\<close>

lemma awaitConfirmation_eq:
  "awaitConfirmation env h w =
     (case pollReceipt env h 0 (setTimeout env 5000 w) of
        (r, w', ps) \<Rightarrow> (r, w', SetTimeout 5000 # ps))"
  by (simp add: awaitConfirmation_def await_def sleep_def split: prod.splits)

lemma evmAttempt_step [case_names CountError FeeError BuildError SendError Sent]:
  obtains
    (CountError) e w1 where
      "evmAttempt env tx k w = (Inl e, w1, [GetTransactionCount ''latest'' (Inl e)])"
  | (FeeError) c e w2 where
      "evmAttempt env tx k w =
         (Inl e, w2, [GetTransactionCount ''latest'' (Inr c), GetFeeData (Inl e)])"
  | (BuildError) c fd e w2 where
      "evmAttempt env tx k w =
         (Inl e, w2, [GetTransactionCount ''latest'' (Inr c), GetFeeData (Inr fd)])"
  | (SendError) c fd val gas e w3 where
      "evmAttempt env tx k w =
         (Inl e, w3, [GetTransactionCount ''latest'' (Inr c), GetFeeData (Inr fd),
                      SendTransaction (buildTransaction tx val (c + k) gas fd) (Inl e)])"
  | (Sent) c fd val gas resp w3 r w4 ps where
      "pollReceipt env (hash resp) 0 (setTimeout env 5000 w3) = (r, w4, ps)"
      "evmAttempt env tx k w =
         (r, w4, GetTransactionCount ''latest'' (Inr c) # GetFeeData (Inr fd)
                 # SendTransaction (buildTransaction tx val (c + k) gas fd) (Inr resp)
                 # SetTimeout 5000 # ps)"
proof -
  obtain x w1 where r1: "getTransactionCount env ''latest'' w = (x, w1)"
    by (cases "getTransactionCount env ''latest'' w")
  obtain y w2 where r2: "getFeeData env w1 = (y, w2)" by (cases "getFeeData env w1")
  show thesis
  proof (cases x)
    case (Inl e)
    with r1 have "evmAttempt env tx k w = (Inl e, w1, [GetTransactionCount ''latest'' (Inl e)])"
      by (simp add: evmAttempt_def await_def call_def)
    then show thesis by (rule CountError)
  next
    case xr: (Inr c)
    show thesis
    proof (cases y)
      case (Inl e)
      with r1 r2 xr have
        "evmAttempt env tx k w =
           (Inl e, w2, [GetTransactionCount ''latest'' (Inr c), GetFeeData (Inl e)])"
        by (simp add: evmAttempt_def await_def call_def)
      then show thesis by (rule FeeError)
    next
      case yr: (Inr fd)
      show thesis
      proof (cases "bigNumberOr0 env (tx_value tx)")
        case (Inl e)
        with r1 r2 xr yr have
          "evmAttempt env tx k w =
             (Inl e, w2, [GetTransactionCount ''latest'' (Inr c), GetFeeData (Inr fd)])"
          by (simp add: evmAttempt_def await_def call_def fromResult_def)
        then show thesis by (rule BuildError)
      next
        case vr: (Inr val)
        show thesis
        proof (cases "bigNumberOr0 env (tx_gas tx)")
          case (Inl e)
          with r1 r2 xr yr vr have
            "evmAttempt env tx k w =
               (Inl e, w2, [GetTransactionCount ''latest'' (Inr c), GetFeeData (Inr fd)])"
            by (simp add: evmAttempt_def await_def call_def fromResult_def)
          then show thesis by (rule BuildError)
        next
          case gr: (Inr gas)
          obtain z w3 where r3:
            "sendTransaction env (buildTransaction tx val (c + k) gas fd) w2 = (z, w3)"
            by (cases "sendTransaction env (buildTransaction tx val (c + k) gas fd) w2")
          show thesis
          proof (cases z)
            case (Inl e)
            with r1 r2 r3 xr yr vr gr have
              "evmAttempt env tx k w =
                 (Inl e, w3, [GetTransactionCount ''latest'' (Inr c), GetFeeData (Inr fd),
                      SendTransaction (buildTransaction tx val (c + k) gas fd) (Inl e)])"
              by (simp add: evmAttempt_def await_def call_def fromResult_def Let_def)
            then show thesis by (rule SendError)
          next
            case zr: (Inr resp)
            obtain r w4 ps where r4:
              "pollReceipt env (hash resp) 0 (setTimeout env 5000 w3) = (r, w4, ps)"
              by (cases "pollReceipt env (hash resp) 0 (setTimeout env 5000 w3)")
            with r1 r2 r3 xr yr vr gr zr have
              "evmAttempt env tx k w =
                 (r, w4, GetTransactionCount ''latest'' (Inr c) # GetFeeData (Inr fd)
                 # SendTransaction (buildTransaction tx val (c + k) gas fd) (Inr resp)
                 # SetTimeout 5000 # ps)"
              by (simp add: evmAttempt_def await_def call_def fromResult_def Let_def
                    awaitConfirmation_eq)
            with r4 show thesis by (rule Sent)
          qed
        qed
      qed
    qed
  qed
qed

lemma evmRetryLoop_done:
  "\<not> k < m \<Longrightarrow> evmRetryLoop env m tx k w = (Inl (newError ''Max retries exceeded''), w, [])"
  by (subst evmRetryLoop.simps) simp

lemma evmRetryLoop_step [consumes 1, case_names Success Insufficient NonceExpired Exhausted Retry]:
  assumes "k < m"
  obtains
    (Success) rc w1 t1 where
      "evmAttempt env tx k w = (Inr rc, w1, t1)"
      "evmRetryLoop env m tx k w = (Inr rc, w1, t1)"
  | (Insufficient) e w1 t1 where
      "evmAttempt env tx k w = (Inl e, w1, t1)"
      "code e = Some ''INSUFFICIENT_FUNDS''"
      "evmRetryLoop env m tx k w =
         (Inl (newError ''Insufficient funds for transaction''), w1,
          t1 @ [AttemptFailed (k + 1) e])"
  | (NonceExpired) e w1 t1 where
      "evmAttempt env tx k w = (Inl e, w1, t1)"
      "code e = Some ''NONCE_EXPIRED''"
      "evmRetryLoop env m tx k w =
         (Inl (newError ''Transaction nonce expired''), w1, t1 @ [AttemptFailed (k + 1) e])"
  | (Exhausted) e w1 t1 where
      "evmAttempt env tx k w = (Inl e, w1, t1)"
      "code e \<noteq> Some ''INSUFFICIENT_FUNDS''" "code e \<noteq> Some ''NONCE_EXPIRED''"
      "k + 1 = m"
      "evmRetryLoop env m tx k w = (Inl e, w1, t1 @ [AttemptFailed (k + 1) e])"
  | (Retry) e w1 t1 r w2 t3 where
      "evmAttempt env tx k w = (Inl e, w1, t1)"
      "code e \<noteq> Some ''INSUFFICIENT_FUNDS''" "code e \<noteq> Some ''NONCE_EXPIRED''"
      "k + 1 < m"
      "evmRetryLoop env m tx (k + 1) (setTimeout env (2000 * (k + 1)) w1) = (r, w2, t3)"
      "evmRetryLoop env m tx k w =
         (r, w2, t1 @ AttemptFailed (k + 1) e # SetTimeout (2000 * (k + 1)) # t3)"
proof -
  obtain x w1 t1 where a: "evmAttempt env tx k w = (x, w1, t1)"
    by (cases "evmAttempt env tx k w")
  show thesis
  proof (cases x)
    case (Inr rc)
    with a assms have "evmRetryLoop env m tx k w = (Inr rc, w1, t1)"
      by (subst evmRetryLoop.simps) simp
    with a Inr show thesis by (auto intro: Success)
  next
    case (Inl e)
    obtain r w2 t3 where l:
      "evmRetryLoop env m tx (k + 1) (setTimeout env (2000 * (k + 1)) w1) = (r, w2, t3)"
      by (cases "evmRetryLoop env m tx (k + 1) (setTimeout env (2000 * (k + 1)) w1)")
    consider (a) "code e = Some ''INSUFFICIENT_FUNDS''"
      | (b) "code e \<noteq> Some ''INSUFFICIENT_FUNDS''" "code e = Some ''NONCE_EXPIRED''"
      | (c) "code e \<noteq> Some ''INSUFFICIENT_FUNDS''" "code e \<noteq> Some ''NONCE_EXPIRED''" "k + 1 = m"
      | (d) "code e \<noteq> Some ''INSUFFICIENT_FUNDS''" "code e \<noteq> Some ''NONCE_EXPIRED''" "k + 1 < m"
      using assms by force
    then show thesis
    proof cases
      case a
      with \<open>evmAttempt env tx k w = (x, w1, t1)\<close> Inl assms have
        "evmRetryLoop env m tx k w =
         (Inl (newError ''Insufficient funds for transaction''), w1,
          t1 @ [AttemptFailed (k + 1) e])"
        by (subst evmRetryLoop.simps) simp
      with \<open>evmAttempt env tx k w = (x, w1, t1)\<close> Inl a show thesis by (auto intro: Insufficient)
    next
      case b
      with \<open>evmAttempt env tx k w = (x, w1, t1)\<close> Inl assms have
        "evmRetryLoop env m tx k w =
         (Inl (newError ''Transaction nonce expired''), w1, t1 @ [AttemptFailed (k + 1) e])"
        by (subst evmRetryLoop.simps) simp
      with \<open>evmAttempt env tx k w = (x, w1, t1)\<close> Inl b show thesis by (auto intro: NonceExpired)
    next
      case c
      with \<open>evmAttempt env tx k w = (x, w1, t1)\<close> Inl assms have
        "evmRetryLoop env m tx k w = (Inl e, w1, t1 @ [AttemptFailed (k + 1) e])"
        by (subst evmRetryLoop.simps) simp
      with \<open>evmAttempt env tx k w = (x, w1, t1)\<close> Inl c show thesis by (auto intro: Exhausted)
    next
      case d
      with \<open>evmAttempt env tx k w = (x, w1, t1)\<close> Inl assms l have
        "evmRetryLoop env m tx k w =
         (r, w2, t1 @ AttemptFailed (k + 1) e # SetTimeout (2000 * (k + 1)) # t3)"
        by (subst evmRetryLoop.simps) simp
      with \<open>evmAttempt env tx k w = (x, w1, t1)\<close> Inl d l show thesis by (auto intro: Retry)
    qed
  qed
qed

lemma submissions_poll: "list_all isPollEvent ps \<Longrightarrow> submissions ps = 0"
  by (induction ps) (auto simp: submissions_def elim: isPollEvent.elims)

lemma failure_poll: "list_all isPollEvent ps \<Longrightarrow> filter isFailure ps = []"
  by (induction ps) (auto elim: isPollEvent.elims)

lemma sequential_poll: "list_all isPollEvent ps \<Longrightarrow> sequential b (ps @ es) = sequential b es"
  by (induction ps) (auto elim: isPollEvent.elims)

lemma nonceRule_poll: "list_all isPollEvent ps \<Longrightarrow> nonceRule n c (ps @ es) = nonceRule n c es"
  by (induction ps) (auto elim: isPollEvent.elims)

lemma feeRule_poll: "list_all isPollEvent ps \<Longrightarrow> feeRule m fd (ps @ es) = feeRule m fd es"
  by (induction ps) (auto elim: isPollEvent.elims)

lemma feeOutage_poll: "list_all isPollEvent ps \<Longrightarrow> feeOutage None (ps @ es) = feeOutage None es"
  by (induction ps) (auto elim: isPollEvent.elims)

lemma counts_poll: "list_all isPollEvent ps \<Longrightarrow> counts (ps @ es) = counts es"
  by (induction ps) (auto elim: isPollEvent.elims)

lemma nonces_poll: "list_all isPollEvent ps \<Longrightarrow> nonces (ps @ es) = nonces es"
  by (induction ps) (auto elim: isPollEvent.elims)

lemma poll_shape: "pollReceipt env h a w = (r, w', ps) \<Longrightarrow> list_all isPollEvent ps"
  using poll_events_shape [of env h a w] by (simp add: events_def)

lemma evmAttempt_submissions: "submissions (events (evmAttempt env tx k w)) \<le> 1"
  by (cases rule: evmAttempt_step [of env tx k w])
     (auto simp: events_def submissions_def dest!: poll_shape submissions_poll)

lemma evmAttempt_no_failure: "evmAttempt env tx k w = (r, w1, t1) \<Longrightarrow> filter isFailure t1 = []"
  by (cases rule: evmAttempt_step [of env tx k w]) (auto dest!: poll_shape failure_poll)

lemma evmAttempt_sequential_then:
  "evmAttempt env tx k w = (r, w1, t1) \<Longrightarrow>
   sequential False (t1 @ AttemptFailed j e # es) = sequential False es"
  by (cases rule: evmAttempt_step [of env tx k w]) (auto dest!: poll_shape simp: sequential_poll)

lemma evmAttempt_sequential:
  "evmAttempt env tx k w = (r, w1, t1) \<Longrightarrow> sequential False t1"
  by (cases rule: evmAttempt_step [of env tx k w])
     (auto dest!: poll_shape simp: sequential_poll [where es = "[]", simplified])

lemma evmAttempt_nonceRule_then:
  "evmAttempt env tx k w = (r, w1, t1) \<Longrightarrow>
   nonceRule k c (t1 @ AttemptFailed j e # es) = nonceRule (Suc k) None es"
  by (cases rule: evmAttempt_step [of env tx k w])
     (auto dest!: poll_shape simp: nonceRule_poll buildTransaction_def)

lemma evmAttempt_nonceRule:
  "evmAttempt env tx k w = (r, w1, t1) \<Longrightarrow> nonceRule k c t1"
  by (cases rule: evmAttempt_step [of env tx k w])
     (auto dest!: poll_shape simp: nonceRule_poll [where es = "[]", simplified] buildTransaction_def)

lemma evmAttempt_feeRule_then:
  "evmAttempt env tx k w = (r, w1, t1) \<Longrightarrow>
   feeRule gasMultiplier fd (t1 @ AttemptFailed j e # es) = feeRule gasMultiplier None es"
  by (cases rule: evmAttempt_step [of env tx k w])
     (auto dest!: poll_shape simp: feeRule_poll buildTransaction_def)

lemma evmAttempt_feeRule:
  "evmAttempt env tx k w = (r, w1, t1) \<Longrightarrow> feeRule gasMultiplier fd t1"
  by (cases rule: evmAttempt_step [of env tx k w])
     (auto dest!: poll_shape simp: feeRule_poll [where es = "[]", simplified] buildTransaction_def)

lemma evmAttempt_feeOutage_then:
  "evmAttempt env tx k w = (Inl e, w1, t1) \<Longrightarrow>
   feeOutage None (t1 @ AttemptFailed j e # es) = feeOutage None es"
  by (cases rule: evmAttempt_step [of env tx k w])
     (auto dest!: poll_shape simp: feeOutage_poll)

lemma evmAttempt_feeOutage:
  "evmAttempt env tx k w = (Inr rc, w1, t1) \<Longrightarrow> feeOutage None t1"
  by (cases rule: evmAttempt_step [of env tx k w])
     (auto dest!: poll_shape simp: feeOutage_poll [where es = "[]", simplified])

lemma evmRetryLoop_submissions:
  "submissions (events (evmRetryLoop env m tx k w)) \<le> m - k"
proof (induction "m - k" arbitrary: k w)
  case 0
  then show ?case by (simp add: evmRetryLoop_done events_def submissions_def)
next
  case (Suc n)
  then have lt: "k < m" by simp
  have one: "\<And>r w1 t1. evmAttempt env tx k w = (r, w1, t1) \<Longrightarrow> submissions t1 \<le> 1"
    using evmAttempt_submissions [of env tx k w] by (simp add: events_def)
  from lt show ?case
  proof (cases rule: evmRetryLoop_step [where env = env and tx = tx and w = w])
    case (Retry e w1 t1 r w2 t3)
    from Suc.hyps(2) have "n = m - (k + 1)" by simp
    from Suc.hyps(1) [OF this, of "setTimeout env (2000 * (k + 1)) w1"] Retry one [OF Retry(1)]
    show ?thesis by (simp add: events_def submissions_def)
  qed (use lt one in \<open>fastforce simp: events_def submissions_def\<close>)+
qed

lemma evmRetryLoop_sequential:
  "sequential False (events (evmRetryLoop env m tx k w))"
proof (induction "m - k" arbitrary: k w)
  case 0
  then show ?case by (simp add: evmRetryLoop_done events_def)
next
  case (Suc n)
  then have lt: "k < m" by simp
  from lt show ?case
  proof (cases rule: evmRetryLoop_step [where env = env and tx = tx and w = w])
    case (Retry e w1 t1 r w2 t3)
    from Suc.hyps(2) have "n = m - (k + 1)" by simp
    from Suc.hyps(1) [OF this, of "setTimeout env (2000 * (k + 1)) w1"] Retry
    show ?thesis by (simp add: events_def evmAttempt_sequential_then)
  qed (simp_all add: events_def evmAttempt_sequential_then evmAttempt_sequential)
qed

lemma evmRetryLoop_nonceRule:
  "nonceRule k c (events (evmRetryLoop env m tx k w))"
proof (induction "m - k" arbitrary: k w c)
  case 0
  then show ?case by (simp add: evmRetryLoop_done events_def)
next
  case (Suc n)
  then have lt: "k < m" by simp
  from lt show ?case
  proof (cases rule: evmRetryLoop_step [where env = env and tx = tx and w = w])
    case (Retry e w1 t1 r w2 t3)
    from Suc.hyps(2) have "n = m - (k + 1)" by simp
    from Suc.hyps(1) [OF this, of None "setTimeout env (2000 * (k + 1)) w1"] Retry
    show ?thesis by (simp add: events_def evmAttempt_nonceRule_then)
  qed (simp_all add: events_def evmAttempt_nonceRule_then evmAttempt_nonceRule)
qed

lemma evmRetryLoop_feeRule:
  "feeRule gasMultiplier fd (events (evmRetryLoop env m tx k w))"
proof (induction "m - k" arbitrary: k w fd)
  case 0
  then show ?case by (simp add: evmRetryLoop_done events_def)
next
  case (Suc n)
  then have lt: "k < m" by simp
  from lt show ?case
  proof (cases rule: evmRetryLoop_step [where env = env and tx = tx and w = w])
    case (Retry e w1 t1 r w2 t3)
    from Suc.hyps(2) have "n = m - (k + 1)" by simp
    from Suc.hyps(1) [OF this, of None "setTimeout env (2000 * (k + 1)) w1"] Retry
    show ?thesis by (simp add: events_def evmAttempt_feeRule_then)
  qed (simp_all add: events_def evmAttempt_feeRule_then evmAttempt_feeRule)
qed

lemma evmRetryLoop_feeOutage:
  "feeOutage None (events (evmRetryLoop env m tx k w))"
proof (induction "m - k" arbitrary: k w)
  case 0
  then show ?case by (simp add: evmRetryLoop_done events_def)
next
  case (Suc n)
  then have lt: "k < m" by simp
  from lt show ?case
  proof (cases rule: evmRetryLoop_step [where env = env and tx = tx and w = w])
    case (Retry e w1 t1 r w2 t3)
    from Suc.hyps(2) have "n = m - (k + 1)" by simp
    from Suc.hyps(1) [OF this, of "setTimeout env (2000 * (k + 1)) w1"] Retry
    show ?thesis by (simp add: events_def evmAttempt_feeOutage_then)
  qed (simp_all add: events_def evmAttempt_feeOutage_then evmAttempt_feeOutage)
qed

lemma approvalAttempt_step [case_names FeeError ApproveError Approved]:
  obtains
    (FeeError) e w1 where
      "approvalAttempt env tok sp amt w = (Inl e, w1, [GetFeeData (Inl e)])"
  | (ApproveError) fd e w2 where
      "approvalAttempt env tok sp amt w =
         (Inl e, w2, [GetFeeData (Inr fd), Approve tok sp amt (approvalOverrides fd) (Inl e)])"
  | (Approved) fd resp r w3 where
      "approvalAttempt env tok sp amt w =
         (r, w3, [GetFeeData (Inr fd), Approve tok sp amt (approvalOverrides fd) (Inr resp),
                  Wait (hash resp) r])"
proof -
  obtain x w1 where r1: "getFeeData env w = (x, w1)" by (cases "getFeeData env w")
  show thesis
  proof (cases x)
    case (Inl e)
    with r1 have "approvalAttempt env tok sp amt w = (Inl e, w1, [GetFeeData (Inl e)])"
      by (simp add: approvalAttempt_def await_def call_def)
    then show thesis by (rule FeeError)
  next
    case xr: (Inr fd)
    obtain y w2 where r2: "approve env tok sp amt (approvalOverrides fd) w1 = (y, w2)"
      by (cases "approve env tok sp amt (approvalOverrides fd) w1")
    show thesis
    proof (cases y)
      case (Inl e)
      with r1 r2 xr have
        "approvalAttempt env tok sp amt w =
           (Inl e, w2, [GetFeeData (Inr fd), Approve tok sp amt (approvalOverrides fd) (Inl e)])"
        by (simp add: approvalAttempt_def await_def call_def)
      then show thesis by (rule ApproveError)
    next
      case yr: (Inr resp)
      obtain r w3 where r3: "wait env (hash resp) w2 = (r, w3)"
        by (cases "wait env (hash resp) w2")
      with r1 r2 xr yr have
        "approvalAttempt env tok sp amt w =
           (r, w3, [GetFeeData (Inr fd), Approve tok sp amt (approvalOverrides fd) (Inr resp),
                    Wait (hash resp) r])"
        by (simp add: approvalAttempt_def await_def call_def)
      then show thesis by (rule Approved)
    qed
  qed
qed

lemma approvalRetryLoop_done:
  "\<not> k < m \<Longrightarrow>
   approvalRetryLoop env m tok sp amt k w =
     (Inl (newError ''Max retries exceeded for approval transaction''), w, [])"
  by (subst approvalRetryLoop.simps) simp

lemma approvalRetryLoop_step [consumes 1, case_names Success Exhausted Retry]:
  assumes "k < m"
  obtains
    (Success) rc w1 t1 where
      "approvalAttempt env tok sp amt w = (Inr rc, w1, t1)"
      "approvalRetryLoop env m tok sp amt k w = (Inr rc, w1, t1)"
  | (Exhausted) e w1 t1 where
      "approvalAttempt env tok sp amt w = (Inl e, w1, t1)"
      "k + 1 = m"
      "approvalRetryLoop env m tok sp amt k w = (Inl e, w1, t1 @ [AttemptFailed (k + 1) e])"
  | (Retry) e w1 t1 r w2 t3 where
      "approvalAttempt env tok sp amt w = (Inl e, w1, t1)"
      "k + 1 < m"
      "approvalRetryLoop env m tok sp amt (k + 1) (setTimeout env (2000 * (k + 1)) w1)
         = (r, w2, t3)"
      "approvalRetryLoop env m tok sp amt k w =
         (r, w2, t1 @ AttemptFailed (k + 1) e # SetTimeout (2000 * (k + 1)) # t3)"
proof -
  obtain x w1 t1 where a: "approvalAttempt env tok sp amt w = (x, w1, t1)"
    by (cases "approvalAttempt env tok sp amt w")
  show thesis
  proof (cases x)
    case (Inr rc)
    with a assms have "approvalRetryLoop env m tok sp amt k w = (Inr rc, w1, t1)"
      by (subst approvalRetryLoop.simps) simp
    with a Inr show thesis by (auto intro: Success)
  next
    case (Inl e)
    obtain r w2 t3 where l:
      "approvalRetryLoop env m tok sp amt (k + 1) (setTimeout env (2000 * (k + 1)) w1)
         = (r, w2, t3)"
      by (cases "approvalRetryLoop env m tok sp amt (k + 1)
                   (setTimeout env (2000 * (k + 1)) w1)")
    consider (c) "k + 1 = m" | (d) "k + 1 < m"
      using assms by force
    then show thesis
    proof cases
      case c
      with a Inl assms have
        "approvalRetryLoop env m tok sp amt k w = (Inl e, w1, t1 @ [AttemptFailed (k + 1) e])"
        by (subst approvalRetryLoop.simps) simp
      with a Inl c show thesis by (auto intro: Exhausted)
    next
      case d
      with a Inl assms l have
        "approvalRetryLoop env m tok sp amt k w =
           (r, w2, t1 @ AttemptFailed (k + 1) e # SetTimeout (2000 * (k + 1)) # t3)"
        by (subst approvalRetryLoop.simps) simp
      with a Inl d l show thesis by (auto intro: Retry)
    qed
  qed
qed

lemma approvalAttempt_submissions:
  "approvalAttempt env tok sp amt w = (r, w1, t1) \<Longrightarrow> submissions t1 \<le> 1"
  by (cases rule: approvalAttempt_step [of env tok sp amt w]) (auto simp: submissions_def)

lemma approvalAttempt_no_failure:
  "approvalAttempt env tok sp amt w = (r, w1, t1) \<Longrightarrow> filter isFailure t1 = []"
  by (cases rule: approvalAttempt_step [of env tok sp amt w]) auto

lemma approvalAttempt_sequential_then:
  "approvalAttempt env tok sp amt w = (r, w1, t1) \<Longrightarrow>
   sequential False (t1 @ AttemptFailed j e # es) = sequential False es"
  by (cases rule: approvalAttempt_step [of env tok sp amt w]) auto

lemma approvalAttempt_sequential:
  "approvalAttempt env tok sp amt w = (r, w1, t1) \<Longrightarrow> sequential False t1"
  by (cases rule: approvalAttempt_step [of env tok sp amt w]) auto

lemma approvalAttempt_feeRule_then:
  "approvalAttempt env tok sp amt w = (r, w1, t1) \<Longrightarrow>
   feeRule DEFAULT_GAS_MULTIPLIER fd (t1 @ AttemptFailed j e # es)
     = feeRule DEFAULT_GAS_MULTIPLIER None es"
  by (cases rule: approvalAttempt_step [of env tok sp amt w])
     (auto simp: approvalOverrides_def)

lemma approvalAttempt_feeRule:
  "approvalAttempt env tok sp amt w = (r, w1, t1) \<Longrightarrow> feeRule DEFAULT_GAS_MULTIPLIER fd t1"
  by (cases rule: approvalAttempt_step [of env tok sp amt w])
     (auto simp: approvalOverrides_def)

lemma approvalAttempt_feeOutage_then:
  "approvalAttempt env tok sp amt w = (Inl e, w1, t1) \<Longrightarrow>
   feeOutage None (t1 @ AttemptFailed j e # es) = feeOutage None es"
  by (cases rule: approvalAttempt_step [of env tok sp amt w]) auto

lemma approvalAttempt_feeOutage:
  "approvalAttempt env tok sp amt w = (Inr rc, w1, t1) \<Longrightarrow> feeOutage None t1"
  by (cases rule: approvalAttempt_step [of env tok sp amt w]) auto

lemma approvalRetryLoop_submissions:
  "submissions (events (approvalRetryLoop env m tok sp amt k w)) \<le> m - k"
proof (induction "m - k" arbitrary: k w)
  case 0
  then show ?case by (simp add: approvalRetryLoop_done events_def submissions_def)
next
  case (Suc n)
  then have lt: "k < m" by simp
  note one = approvalAttempt_submissions [of env tok sp amt w]
  from lt show ?case
  proof (cases rule: approvalRetryLoop_step
      [where env = env and tok = tok and sp = sp and amt = amt and w = w])
    case (Retry e w1 t1 r w2 t3)
    from Suc.hyps(2) have "n = m - (k + 1)" by simp
    from Suc.hyps(1) [OF this, of "setTimeout env (2000 * (k + 1)) w1"] Retry one [OF Retry(1)]
    show ?thesis by (simp add: events_def submissions_def)
  qed (use lt one in \<open>fastforce simp: events_def submissions_def\<close>)+
qed

lemma approvalRetryLoop_sequential:
  "sequential False (events (approvalRetryLoop env m tok sp amt k w))"
proof (induction "m - k" arbitrary: k w)
  case 0
  then show ?case by (simp add: approvalRetryLoop_done events_def)
next
  case (Suc n)
  then have lt: "k < m" by simp
  from lt show ?case
  proof (cases rule: approvalRetryLoop_step
      [where env = env and tok = tok and sp = sp and amt = amt and w = w])
    case (Retry e w1 t1 r w2 t3)
    from Suc.hyps(2) have "n = m - (k + 1)" by simp
    from Suc.hyps(1) [OF this, of "setTimeout env (2000 * (k + 1)) w1"] Retry
    show ?thesis by (simp add: events_def approvalAttempt_sequential_then)
  qed (simp_all add: events_def approvalAttempt_sequential_then approvalAttempt_sequential)
qed

lemma approvalRetryLoop_feeRule:
  "feeRule DEFAULT_GAS_MULTIPLIER fd (events (approvalRetryLoop env m tok sp amt k w))"
proof (induction "m - k" arbitrary: k w fd)
  case 0
  then show ?case by (simp add: approvalRetryLoop_done events_def)
next
  case (Suc n)
  then have lt: "k < m" by simp
  from lt show ?case
  proof (cases rule: approvalRetryLoop_step
      [where env = env and tok = tok and sp = sp and amt = amt and w = w])
    case (Retry e w1 t1 r w2 t3)
    from Suc.hyps(2) have "n = m - (k + 1)" by simp
    from Suc.hyps(1) [OF this, of None "setTimeout env (2000 * (k + 1)) w1"] Retry
    show ?thesis by (simp add: events_def approvalAttempt_feeRule_then)
  qed (simp_all add: events_def approvalAttempt_feeRule_then approvalAttempt_feeRule)
qed

lemma approvalRetryLoop_feeOutage:
  "feeOutage None (events (approvalRetryLoop env m tok sp amt k w))"
proof (induction "m - k" arbitrary: k w)
  case 0
  then show ?case by (simp add: approvalRetryLoop_done events_def)
next
  case (Suc n)
  then have lt: "k < m" by simp
  from lt show ?case
  proof (cases rule: approvalRetryLoop_step
      [where env = env and tok = tok and sp = sp and amt = amt and w = w])
    case (Retry e w1 t1 r w2 t3)
    from Suc.hyps(2) have "n = m - (k + 1)" by simp
    from Suc.hyps(1) [OF this, of "setTimeout env (2000 * (k + 1)) w1"] Retry
    show ?thesis by (simp add: events_def approvalAttempt_feeOutage_then)
  qed (simp_all add: events_def approvalAttempt_feeOutage_then approvalAttempt_feeOutage)
qed

lemma nonceRule_sorted_aux:
  "nonceRule k c evs \<Longrightarrow> sorted (counts evs) \<Longrightarrow> \<forall>x\<in>set (counts evs). lb \<le> x \<Longrightarrow>
   \<forall>v. c = Some v \<longrightarrow> lb \<le> v \<and> (\<forall>x\<in>set (counts evs). v \<le> x) \<Longrightarrow>
   sorted (nonces evs) \<and> (\<forall>n\<in>set (nonces evs). lb + k \<le> n)"
proof (induction k c evs arbitrary: lb rule: nonceRule.induct)
  case (3 n c t r es)
  from "3.prems"(1) obtain v where c: "c = Some v" and t: "req_nonce t = v + n"
    and rest: "nonceRule n c es" by (cases c) auto
  from "3.prems" c have lbv: "lb \<le> v" and up: "\<forall>x\<in>set (counts es). v \<le> x"
    and srt: "sorted (counts es)" by auto
  from "3.IH" [OF rest srt, of v] up c
  have "sorted (nonces es) \<and> (\<forall>m\<in>set (nonces es). v + n \<le> m)" by simp
  with t lbv show ?case by auto
next
  case (2 n c a r es)
  show ?case
  proof (cases r)
    case (Inl e)
    with "2.prems" "2.IH" [of lb] show ?thesis by simp
  next
    case (Inr v)
    with "2.prems" "2.IH" [of lb] show ?thesis by simp
  qed
next
  case (4 n c k e es)
  from "4.prems" "4.IH" [of lb] have "sorted (nonces es) \<and> (\<forall>m\<in>set (nonces es). lb + Suc n \<le> m)"
    by simp
  then show ?case by auto
qed (simp_all)

lemma nonceRule_sorted:
  "nonceRule 0 None evs \<Longrightarrow> sorted (counts evs) \<Longrightarrow> sorted (nonces evs)"
  using nonceRule_sorted_aux [of 0 None evs 0] by simp

lemma no_failure_mem: "filter isFailure t = [] \<Longrightarrow> AttemptFailed j e \<notin> set t"
  by (auto simp: filter_empty_conv)

lemma evmRetryLoop_exhausted:
  "AttemptFailed m e \<in> set (events (evmRetryLoop env m tx k w)) \<Longrightarrow>
   code e \<noteq> Some ''INSUFFICIENT_FUNDS'' \<Longrightarrow> code e \<noteq> Some ''NONCE_EXPIRED'' \<Longrightarrow>
   result (evmRetryLoop env m tx k w) = Inl e"
proof (induction "m - k" arbitrary: k w)
  case 0
  then show ?case by (simp add: evmRetryLoop_done events_def)
next
  case (Suc n)
  then have lt: "k < m" by simp
  note nf = evmAttempt_no_failure [THEN no_failure_mem, of env tx k w]
  from lt show ?case
  proof (cases rule: evmRetryLoop_step [where env = env and tx = tx and w = w])
    case (Retry e' w1 t1 r w2 t3)
    from Suc.hyps(2) have "n = m - (k + 1)" by simp
    from Suc.hyps(1) [OF this, of "setTimeout env (2000 * (k + 1)) w1"] Retry Suc.prems
      nf [OF Retry(1)]
    show ?thesis by (auto simp: events_def result_def)
  next
    case (Success rc w1 t1)
    with Suc.prems nf [OF Success(1)] show ?thesis by (simp add: events_def)
  next
    case (Insufficient e' w1 t1)
    with Suc.prems nf [OF Insufficient(1)] show ?thesis by (auto simp: events_def)
  next
    case (NonceExpired e' w1 t1)
    with Suc.prems nf [OF NonceExpired(1)] show ?thesis by (auto simp: events_def)
  next
    case (Exhausted e' w1 t1)
    with Suc.prems nf [OF Exhausted(1)] show ?thesis by (auto simp: events_def result_def)
  qed
qed

lemma approvalRetryLoop_exhausted:
  "AttemptFailed m e \<in> set (events (approvalRetryLoop env m tok sp amt k w)) \<Longrightarrow>
   result (approvalRetryLoop env m tok sp amt k w) = Inl e"
proof (induction "m - k" arbitrary: k w)
  case 0
  then show ?case by (simp add: approvalRetryLoop_done events_def)
next
  case (Suc n)
  then have lt: "k < m" by simp
  note nf = approvalAttempt_no_failure [THEN no_failure_mem, of env tok sp amt w]
  from lt show ?case
  proof (cases rule: approvalRetryLoop_step
      [where env = env and tok = tok and sp = sp and amt = amt and w = w])
    case (Retry e' w1 t1 r w2 t3)
    from Suc.hyps(2) have "n = m - (k + 1)" by simp
    from Suc.hyps(1) [OF this, of "setTimeout env (2000 * (k + 1)) w1"] Retry Suc.prems
      nf [OF Retry(1)]
    show ?thesis by (auto simp: events_def result_def)
  next
    case (Success rc w1 t1)
    with Suc.prems nf [OF Success(1)] show ?thesis by (simp add: events_def)
  next
    case (Exhausted e' w1 t1)
    with Suc.prems nf [OF Exhausted(1)] show ?thesis by (auto simp: events_def result_def)
  qed
qed

lemma evmRetryLoop_terminal:
  "AttemptFailed j e \<in> set (events (evmRetryLoop env m tx k w)) \<Longrightarrow>
   code e = Some ''INSUFFICIENT_FUNDS'' \<or> code e = Some ''NONCE_EXPIRED'' \<Longrightarrow>
   last (events (evmRetryLoop env m tx k w)) = AttemptFailed j e \<and>
   result (evmRetryLoop env m tx k w) =
     Inl (newError (if code e = Some ''INSUFFICIENT_FUNDS''
                    then ''Insufficient funds for transaction''
                    else ''Transaction nonce expired''))"
proof (induction "m - k" arbitrary: k w)
  case 0
  then show ?case by (simp add: evmRetryLoop_done events_def)
next
  case (Suc n)
  then have lt: "k < m" by simp
  note nf = evmAttempt_no_failure [THEN no_failure_mem, of env tx k w]
  from lt show ?case
  proof (cases rule: evmRetryLoop_step [where env = env and tx = tx and w = w])
    case (Retry e' w1 t1 r w2 t3)
    from Suc.hyps(2) have n: "n = m - (k + 1)" by simp
    from Retry Suc.prems nf [OF Retry(1)] have mem: "AttemptFailed j e \<in> set t3"
      by (auto simp: events_def)
    then have "t3 \<noteq> []" by auto
    with Suc.hyps(1) [OF n, of "setTimeout env (2000 * (k + 1)) w1"] Retry Suc.prems(2) mem
    show ?thesis by (simp add: events_def result_def)
  next
    case (Success rc w1 t1)
    with Suc.prems nf [OF Success(1)] show ?thesis by (simp add: events_def)
  next
    case (Insufficient e' w1 t1)
    with Suc.prems nf [OF Insufficient(1)] show ?thesis by (auto simp: events_def result_def)
  next
    case (NonceExpired e' w1 t1)
    with Suc.prems nf [OF NonceExpired(1)] show ?thesis by (auto simp: events_def result_def)
  next
    case (Exhausted e' w1 t1)
    with Suc.prems nf [OF Exhausted(1)] show ?thesis by (auto simp: events_def result_def)
  qed
qed

lemma bn_div_100: "bn_div x 100 = (if 0 \<le> x then x div 100 else - ((- x) div 100))"
  by (simp add: bn_div_def sgn_if)

lemma bn_div_mono: "x \<le> y \<Longrightarrow> bn_div x 100 \<le> bn_div y 100"
proof -
  assume xy: "x \<le> y"
  consider (a) "0 \<le> x" | (b) "x < 0" "y < 0" | (c) "x < 0" "0 \<le> y" by linarith
  then show ?thesis
  proof cases
    case a
    with xy show ?thesis by (simp add: bn_div_100 zdiv_mono1)
  next
    case b
    with xy have "(- y) div 100 \<le> (- x) div 100" by (intro zdiv_mono1) simp_all
    with b show ?thesis by (simp add: bn_div_100)
  next
    case c
    then have "0 \<le> (- x) div 100" "0 \<le> y div 100" by simp_all
    with c show ?thesis by (simp add: bn_div_100)
  qed
qed

lemma scale_mono: "0 \<le> m \<Longrightarrow> a \<le> b \<Longrightarrow> bn_div (a * m) 100 \<le> bn_div (b * m) 100"
  by (intro bn_div_mono mult_right_mono)

lemma feeRule_sorted_base_aux:
  "feeRule m fd evs \<Longrightarrow> 0 \<le> m \<Longrightarrow> sorted (collect baseSuggested evs) \<Longrightarrow>
   \<forall>x\<in>set (collect baseSuggested evs). lb \<le> x \<Longrightarrow>
   \<forall>f. fd = Some f \<longrightarrow> lb \<le> baseFeeOf f \<and> (\<forall>x\<in>set (collect baseSuggested evs). baseFeeOf f \<le> x) \<Longrightarrow>
   sorted (collect baseBid evs) \<and> (\<forall>b\<in>set (collect baseBid evs). bn_div (lb * m) 100 \<le> b)"
proof (induction m fd evs arbitrary: lb rule: feeRule.induct)
  case (2 m fd r es)
  show ?case
  proof (cases r)
    case (Inl e)
    with "2.prems" "2.IH" [of lb] show ?thesis by simp
  next
    case (Inr v)
    with "2.prems" "2.IH" [of lb] show ?thesis by simp
  qed
next
  case (3 m fd t r es)
  from "3.prems"(1) obtain f where fd: "fd = Some f"
    and t: "req_maxFeePerGas t = bn_div (baseFeeOf f * m) 100"
    and rest: "feeRule m fd es" by (cases fd) auto
  from "3.prems" fd have lbv: "lb \<le> baseFeeOf f"
    and up: "\<forall>x\<in>set (collect baseSuggested es). baseFeeOf f \<le> x"
    and srt: "sorted (collect baseSuggested es)" by auto
  from "3.IH" [OF rest "3.prems"(2) srt, of "baseFeeOf f"] up fd
  have "sorted (collect baseBid es) \<and>
        (\<forall>b\<in>set (collect baseBid es). bn_div (baseFeeOf f * m) 100 \<le> b)" by simp
  with t scale_mono [OF "3.prems"(2) lbv] show ?case by auto
next
  case (4 m fd tok sp a ov r es)
  from "4.prems"(1) obtain f where fd: "fd = Some f"
    and t: "ov_maxFeePerGas ov = bn_div (baseFeeOf f * m) 100"
    and rest: "feeRule m fd es" by (cases fd) auto
  from "4.prems" fd have lbv: "lb \<le> baseFeeOf f"
    and up: "\<forall>x\<in>set (collect baseSuggested es). baseFeeOf f \<le> x"
    and srt: "sorted (collect baseSuggested es)" by auto
  from "4.IH" [OF rest "4.prems"(2) srt, of "baseFeeOf f"] up fd
  have "sorted (collect baseBid es) \<and>
        (\<forall>b\<in>set (collect baseBid es). bn_div (baseFeeOf f * m) 100 \<le> b)" by simp
  with t scale_mono [OF "4.prems"(2) lbv] show ?case by auto
next
  case (5 m fd k e es)
  from "5.prems" "5.IH" [of lb] show ?case by simp
qed (simp_all)

lemma feeRule_sorted_priority_aux:
  "feeRule m fd evs \<Longrightarrow> 0 \<le> m \<Longrightarrow> sorted (collect prioritySuggested evs) \<Longrightarrow>
   \<forall>x\<in>set (collect prioritySuggested evs). lb \<le> x \<Longrightarrow>
   \<forall>f. fd = Some f \<longrightarrow> lb \<le> priorityFeeOf f \<and> (\<forall>x\<in>set (collect prioritySuggested evs). priorityFeeOf f \<le> x) \<Longrightarrow>
   sorted (collect priorityBid evs) \<and> (\<forall>b\<in>set (collect priorityBid evs). bn_div (lb * m) 100 \<le> b)"
proof (induction m fd evs arbitrary: lb rule: feeRule.induct)
  case (2 m fd r es)
  show ?case
  proof (cases r)
    case (Inl e)
    with "2.prems" "2.IH" [of lb] show ?thesis by simp
  next
    case (Inr v)
    with "2.prems" "2.IH" [of lb] show ?thesis by simp
  qed
next
  case (3 m fd t r es)
  from "3.prems"(1) obtain f where fd: "fd = Some f"
    and t: "req_maxPriorityFeePerGas t = bn_div (priorityFeeOf f * m) 100"
    and rest: "feeRule m fd es" by (cases fd) auto
  from "3.prems" fd have lbv: "lb \<le> priorityFeeOf f"
    and up: "\<forall>x\<in>set (collect prioritySuggested es). priorityFeeOf f \<le> x"
    and srt: "sorted (collect prioritySuggested es)" by auto
  from "3.IH" [OF rest "3.prems"(2) srt, of "priorityFeeOf f"] up fd
  have "sorted (collect priorityBid es) \<and>
        (\<forall>b\<in>set (collect priorityBid es). bn_div (priorityFeeOf f * m) 100 \<le> b)" by simp
  with t scale_mono [OF "3.prems"(2) lbv] show ?case by auto
next
  case (4 m fd tok sp a ov r es)
  from "4.prems"(1) obtain f where fd: "fd = Some f"
    and t: "ov_maxPriorityFeePerGas ov = bn_div (priorityFeeOf f * m) 100"
    and rest: "feeRule m fd es" by (cases fd) auto
  from "4.prems" fd have lbv: "lb \<le> priorityFeeOf f"
    and up: "\<forall>x\<in>set (collect prioritySuggested es). priorityFeeOf f \<le> x"
    and srt: "sorted (collect prioritySuggested es)" by auto
  from "4.IH" [OF rest "4.prems"(2) srt, of "priorityFeeOf f"] up fd
  have "sorted (collect priorityBid es) \<and>
        (\<forall>b\<in>set (collect priorityBid es). bn_div (priorityFeeOf f * m) 100 \<le> b)" by simp
  with t scale_mono [OF "4.prems"(2) lbv] show ?case by auto
next
  case (5 m fd k e es)
  from "5.prems" "5.IH" [of lb] show ?case by simp
qed (simp_all)

lemma sorted_lower: "sorted (xs :: int list) \<Longrightarrow> \<exists>lb. \<forall>x\<in>set xs. lb \<le> x"
  by (cases xs) auto

lemma feeRule_sorted_base:
  assumes "feeRule m None evs" "0 \<le> m" "sorted (collect baseSuggested evs)"
  shows "sorted (collect baseBid evs)"
proof -
  from sorted_lower [OF assms(3)] obtain lb where "\<forall>x\<in>set (collect baseSuggested evs). lb \<le> x" ..
  with feeRule_sorted_base_aux [OF assms, of lb] show ?thesis by simp
qed

lemma feeRule_sorted_priority:
  assumes "feeRule m None evs" "0 \<le> m" "sorted (collect prioritySuggested evs)"
  shows "sorted (collect priorityBid evs)"
proof -
  from sorted_lower [OF assms(3)] obtain lb where
    "\<forall>x\<in>set (collect prioritySuggested evs). lb \<le> x" ..
  with feeRule_sorted_priority_aux [OF assms, of lb] show ?thesis by simp
qed

section \<open>A confirmed swap; the approval address lookup; terminal errors\<close>

lemma collect_append: "collect f (xs @ ys) = collect f xs @ collect f ys"
  by (simp add: collect_def)

lemma hashes_poll: "list_all isPollEvent ps \<Longrightarrow> collect submittedHash ps = []"
  by (induction ps) (auto elim: isPollEvent.elims)

lemma poll_success_last:
  "pollReceipt env h a w = (Inr rc, w', ps) \<Longrightarrow>
   ps \<noteq> [] \<and> last ps = GetTransactionReceipt h (Inr (Some rc))"
proof (induction "maxAttempts - a" arbitrary: a w ps)
  case 0
  then show ?case by (simp add: pollReceipt_done)
next
  case (Suc n)
  then have lt: "a < maxAttempts" by simp
  from lt show ?case
  proof (cases rule: pollReceipt_step [where env = env and h = h and w = w])
    case (Pending p w2 r' w3 t3)
    from Suc.hyps(2) have "n = maxAttempts - (a + 1)" by simp
    from Suc.hyps(1) [OF this, of "setTimeout env 2000 w2" t3] Suc.prems Pending
    show ?thesis by auto
  qed (use Suc.prems in auto)
qed

lemma evmAttempt_success:
  "evmAttempt env tx k w = (Inr rc, w1, t1) \<Longrightarrow>
   t1 \<noteq> [] \<and> collect submittedHash t1 \<noteq> []
   \<and> last t1 = GetTransactionReceipt (last (collect submittedHash t1)) (Inr (Some rc))"
proof (cases rule: evmAttempt_step [of env tx k w])
  case (Sent c fd val gas resp w3 r w4 ps)
  assume "evmAttempt env tx k w = (Inr rc, w1, t1)"
  with Sent have p: "pollReceipt env (hash resp) 0 (setTimeout env 5000 w3) = (Inr rc, w1, ps)"
    and t1: "t1 = GetTransactionCount ''latest'' (Inr c) # GetFeeData (Inr fd)
                 # SendTransaction (buildTransaction tx val (c + k) gas fd) (Inr resp)
                 # SetTimeout 5000 # ps" by simp_all
  from poll_success_last [OF p] hashes_poll [OF poll_shape [OF p]] t1
  show ?thesis by simp
qed simp_all

lemma evmRetryLoop_success:
  "evmRetryLoop env m tx k w = (Inr rc, w', evs) \<Longrightarrow>
   evs \<noteq> [] \<and> collect submittedHash evs \<noteq> []
   \<and> last evs = GetTransactionReceipt (last (collect submittedHash evs)) (Inr (Some rc))"
proof (induction "m - k" arbitrary: k w evs)
  case 0
  then show ?case by (simp add: evmRetryLoop_done)
next
  case (Suc n)
  then have lt: "k < m" by simp
  from lt show ?case
  proof (cases rule: evmRetryLoop_step [where env = env and tx = tx and w = w])
    case (Retry e w1 t1 r w2 t3)
    from Suc.hyps(2) have "n = m - (k + 1)" by simp
    from Suc.hyps(1) [OF this, of "setTimeout env (2000 * (k + 1)) w1" t3] Retry Suc.prems
    show ?thesis by (auto simp: collect_append)
  next
    case (Success rc' w1 t1)
    with Suc.prems evmAttempt_success [of env tx k w rc w1 t1] show ?thesis by auto
  qed (use Suc.prems in auto)
qed

lemma getDexContractAddress_events:
  "getDexContractAddress env chainId w = (r, w1, t1) \<Longrightarrow> submissions t1 = 0"
  by (auto simp: getDexContractAddress_def await_def call_def throw_def resolve_def
        submissions_def split: prod.splits sum.splits option.splits list.splits if_splits)

lemma evm_terminal_error_aborts:
  assumes "AttemptFailed j e
             \<in> set (events (executeEvmTransaction env config networkConfig tx w))"
    and "code e = Some ''INSUFFICIENT_FUNDS'' \<or> code e = Some ''NONCE_EXPIRED''"
  shows "last (events (executeEvmTransaction env config networkConfig tx w)) = AttemptFailed j e
    \<and> result (executeEvmTransaction env config networkConfig tx w)
        = Inl (newError (if code e = Some ''INSUFFICIENT_FUNDS''
                         then ''Insufficient funds for transaction''
                         else ''Transaction nonce expired''))"
  using assms evmRetryLoop_terminal [of j e env "maxRetriesOr3 networkConfig" tx 0 w]
  by (cases "evm_wallet config") (simp_all add: executeEvmTransaction_def throw_def events_def)

section \<open>The observations discriminate\<close>

text \<open>Each rule rejects the runs it is meant to exclude.\<close>

lemma sequential_rejects_overlap:
  "\<not> sequential False [SendTransaction t r, SendTransaction t' r']"
  by simp

lemma sequential_accepts_after_failure:
  "sequential False [SendTransaction t r, AttemptFailed 1 e, SendTransaction t' r']"
  by simp

lemma nonceRule_rejects_other_nonce:
  "\<not> nonceRule 1 None
       [GetTransactionCount a (Inr 7), SendTransaction (buildTransaction tx v 7 g fd) r]"
  by (simp add: buildTransaction_def)

lemma feeRule_rejects_other_fee:
  "\<not> feeRule 110 None
       [GetFeeData (Inr fd),
        SendTransaction (t \<lparr> req_maxFeePerGas := bn_div (baseFeeOf fd * 110) 100 + 1 \<rparr>) r]"
  by simp

lemma feeOutage_rejects_submission:
  "\<not> feeOutage None [GetFeeData (Inl e), SendTransaction t r]"
  by simp

section \<open>The claims\<close>

lemmas run_defs = executeEvmTransaction_def evmAttempt_def awaitConfirmation_def await_def call_def
  sleep_def fromResult_def throw_def resolve_def bigNumberOr0_def maxRetriesOr3_def
  demoTx_def demoConfig_def demoChain_def baseFeeOf_def priorityFeeOf_def gasMultiplier_def
  buildTransaction_def Let_def bn_div_def maxAttempts_def newError_def events_def result_def
  evmRetryLoop.simps pollReceipt.simps demoReceipt_def

lemmas approval_defs = executeApprovalTransaction_def approvalAttempt_def approvalOverrides_def
  DEFAULT_GAS_MULTIPLIER_def approvalRetryLoop.simps handleTokenApproval_def
  getDexContractAddress_def getAllowance_def

lemmas swap_defs = EVMSwapExecutor_executeSwap_def formatSwapResult_def demoSwap_def
  demoResult_def confirmingNode_def pendingNode_def droppingNode_def

text \<open>
  C1. In every run of the swap and of the approval retry loop, each submission bids, for
  both the base fee and the priority fee, the fee data fetched in its own attempt (0 and
  3 gwei where the node suggests nothing) times a fixed multiplier, 110 for a swap and 150
  for an approval, divided by 100 with truncation; the attempt index plays no part.
  Consequently the bids of a run are non-decreasing whenever the suggestions fetched in
  that run are non-decreasing.
\<close>

theorem fee_fixed_margin:
  "gasMultiplier = 110 \<and> DEFAULT_GAS_MULTIPLIER = 150
   \<and> feeRule gasMultiplier None (events (executeEvmTransaction env config networkConfig tx w))
   \<and> feeRule DEFAULT_GAS_MULTIPLIER None
        (events (executeApprovalTransaction env config networkConfig tok sp amt w))
   \<and> (sorted (collect baseSuggested
                 (events (executeEvmTransaction env config networkConfig tx w)))
        \<longrightarrow> sorted (collect baseBid
                 (events (executeEvmTransaction env config networkConfig tx w))))
   \<and> (sorted (collect prioritySuggested
                 (events (executeEvmTransaction env config networkConfig tx w)))
        \<longrightarrow> sorted (collect priorityBid
                 (events (executeEvmTransaction env config networkConfig tx w))))
   \<and> (sorted (collect baseSuggested
                 (events (executeApprovalTransaction env config networkConfig tok sp amt w)))
        \<longrightarrow> sorted (collect baseBid
                 (events (executeApprovalTransaction env config networkConfig tok sp amt w))))
   \<and> (sorted (collect prioritySuggested
                 (events (executeApprovalTransaction env config networkConfig tok sp amt w)))
        \<longrightarrow> sorted (collect priorityBid
                 (events (executeApprovalTransaction env config networkConfig tok sp amt w))))"
proof -
  have s: "feeRule gasMultiplier None
      (events (executeEvmTransaction env config networkConfig tx w))"
    using evmRetryLoop_feeRule [of None env "maxRetriesOr3 networkConfig" tx 0 w]
    by (simp add: executeEvmTransaction_def throw_def events_def split: option.splits)
  have a: "feeRule DEFAULT_GAS_MULTIPLIER None
      (events (executeApprovalTransaction env config networkConfig tok sp amt w))"
    using approvalRetryLoop_feeRule [of None env "maxRetriesOr3 networkConfig" tok sp amt 0 w]
    by (simp add: executeApprovalTransaction_def throw_def events_def split: option.splits)
  have g: "0 \<le> gasMultiplier" "0 \<le> DEFAULT_GAS_MULTIPLIER"
    by (simp_all add: gasMultiplier_def DEFAULT_GAS_MULTIPLIER_def)
  note sb = feeRule_sorted_base [OF s g(1)] and sp = feeRule_sorted_priority [OF s g(1)]
    and ab = feeRule_sorted_base [OF a g(2)] and ap = feeRule_sorted_priority [OF a g(2)]
  from s a sb sp ab ap show ?thesis
    by (simp add: gasMultiplier_def DEFAULT_GAS_MULTIPLIER_def)
qed

theorem fee_fixed_margin_witness:
  "collect baseSuggested
     (events (executeEvmTransaction risingNode demoConfig (demoChain (Some 2)) demoTx 0))
     = [1000, 8000]
   \<and> collect baseBid
     (events (executeEvmTransaction risingNode demoConfig (demoChain (Some 2)) demoTx 0))
     = [1100, 8800]
   \<and> sorted (collect baseBid
     (events (executeEvmTransaction risingNode demoConfig (demoChain (Some 2)) demoTx 0)))
   \<and> collect prioritySuggested
     (events (executeEvmTransaction risingNode demoConfig (demoChain (Some 2)) demoTx 0))
     = [5, 5]
   \<and> sorted (collect priorityBid
     (events (executeEvmTransaction risingNode demoConfig (demoChain (Some 2)) demoTx 0)))
   \<and> collect baseSuggested
     (events (executeApprovalTransaction insufficientNode demoConfig (demoChain None)
                ''0xtoken'' ''0xdex'' 50 0))
     = [2000, 2000, 2000]
   \<and> collect baseBid
     (events (executeApprovalTransaction insufficientNode demoConfig (demoChain None)
                ''0xtoken'' ''0xdex'' 50 0))
     = [3000, 3000, 3000]
   \<and> sorted (collect baseBid
     (events (executeApprovalTransaction insufficientNode demoConfig (demoChain None)
                ''0xtoken'' ''0xdex'' 50 0)))
   \<and> collect prioritySuggested
     (events (executeApprovalTransaction insufficientNode demoConfig (demoChain None)
                ''0xtoken'' ''0xdex'' 50 0))
     = [3000000000, 3000000000, 3000000000]
   \<and> sorted (collect priorityBid
     (events (executeApprovalTransaction insufficientNode demoConfig (demoChain None)
                ''0xtoken'' ''0xdex'' 50 0)))"
proof -
  have s1: "collect baseSuggested
     (events (executeEvmTransaction risingNode demoConfig (demoChain (Some 2)) demoTx 0))
     = [1000, 8000]"
    by (simp add: run_defs risingNode_def droppingNode_def)
  have s2: "collect baseBid
     (events (executeEvmTransaction risingNode demoConfig (demoChain (Some 2)) demoTx 0))
     = [1100, 8800]"
    by (simp add: run_defs risingNode_def droppingNode_def)
  have s3: "collect prioritySuggested
     (events (executeEvmTransaction risingNode demoConfig (demoChain (Some 2)) demoTx 0))
     = [5, 5]"
    by (simp add: run_defs risingNode_def droppingNode_def)
  have a1: "collect baseSuggested
     (events (executeApprovalTransaction insufficientNode demoConfig (demoChain None)
                ''0xtoken'' ''0xdex'' 50 0))
     = [2000, 2000, 2000]"
    by (simp add: run_defs approval_defs insufficientNode_def droppingNode_def)
  have a2: "collect baseBid
     (events (executeApprovalTransaction insufficientNode demoConfig (demoChain None)
                ''0xtoken'' ''0xdex'' 50 0))
     = [3000, 3000, 3000]"
    by (simp add: run_defs approval_defs insufficientNode_def droppingNode_def)
  have a3: "collect prioritySuggested
     (events (executeApprovalTransaction insufficientNode demoConfig (demoChain None)
                ''0xtoken'' ''0xdex'' 50 0))
     = [3000000000, 3000000000, 3000000000]"
    by (simp add: run_defs approval_defs insufficientNode_def droppingNode_def)
  have srt: "sorted [1000, 8000 :: int]" "sorted [5, 5 :: int]" "sorted [2000, 2000, 2000 :: int]"
    "sorted [3000000000, 3000000000, 3000000000 :: int]"
    by simp_all
  note swap = fee_fixed_margin [of risingNode demoConfig "demoChain (Some 2)" demoTx 0
      "''0xtoken''" "''0xdex''" 50]
  note appr = fee_fixed_margin [of insufficientNode demoConfig "demoChain None" demoTx 0
      "''0xtoken''" "''0xdex''" 50]
  from swap srt(1) have s4: "sorted (collect baseBid
     (events (executeEvmTransaction risingNode demoConfig (demoChain (Some 2)) demoTx 0)))"
    unfolding s1 by blast
  from swap srt(2) have s5: "sorted (collect priorityBid
     (events (executeEvmTransaction risingNode demoConfig (demoChain (Some 2)) demoTx 0)))"
    unfolding s3 by blast
  from appr srt(3) have a4: "sorted (collect baseBid
     (events (executeApprovalTransaction insufficientNode demoConfig (demoChain None)
                ''0xtoken'' ''0xdex'' 50 0)))"
    unfolding a1 by blast
  from appr srt(4) have a5: "sorted (collect priorityBid
     (events (executeApprovalTransaction insufficientNode demoConfig (demoChain None)
                ''0xtoken'' ''0xdex'' 50 0)))"
    unfolding a3 by blast
  from s1 s2 s3 s4 s5 a1 a2 a3 a4 a5 show ?thesis by blast
qed

text \<open>
  The claim as stated fails: on \<open>droppingNode\<close> the second attempt bids a lower base fee
  than the first, and the multiplier is 110/100 at attempt index 0 and again at index 1.
\<close>

theorem fee_escalation_counterexample:
  "collect baseSuggested
     (events (executeEvmTransaction droppingNode demoConfig (demoChain (Some 2)) demoTx 0))
     = [2000, 1000]
   \<and> collect baseBid
     (events (executeEvmTransaction droppingNode demoConfig (demoChain (Some 2)) demoTx 0))
     = [2200, 1100]
   \<and> \<not> sorted (collect baseBid
     (events (executeEvmTransaction droppingNode demoConfig (demoChain (Some 2)) demoTx 0)))
   \<and> collect prioritySuggested
     (events (executeEvmTransaction droppingNode demoConfig (demoChain (Some 2)) demoTx 0))
     = [3000000000, 3000000000]
   \<and> collect priorityBid
     (events (executeEvmTransaction droppingNode demoConfig (demoChain (Some 2)) demoTx 0))
     = [3300000000, 3300000000]"
  by (simp add: run_defs droppingNode_def)

text \<open>
  C2. A run of the swap retry loop or of the approval retry loop submits at most as many
  times as the effective \<open>maxRetries\<close>, which is \<open>networkConfig.maxRetries\<close> when that is
  a positive count and 3 when it is unset or 0; and it never submits while an earlier
  submission is still in flight: between two submissions the earlier attempt has been
  reported failed.
\<close>

theorem retry_attempts_bounded:
  "submissions (events (executeEvmTransaction env config networkConfig tx w))
     \<le> maxRetriesOr3 networkConfig
   \<and> sequential False (events (executeEvmTransaction env config networkConfig tx w))
   \<and> submissions (events (executeApprovalTransaction env config networkConfig tok sp amt w))
     \<le> maxRetriesOr3 networkConfig
   \<and> sequential False (events (executeApprovalTransaction env config networkConfig tok sp amt w))
   \<and> maxRetriesOr3 (networkConfig \<lparr> config_maxRetries := None \<rparr>) = 3
   \<and> maxRetriesOr3 (networkConfig \<lparr> config_maxRetries := Some 0 \<rparr>) = 3
   \<and> maxRetriesOr3 (networkConfig \<lparr> config_maxRetries := Some (Suc n) \<rparr>) = Suc n"
proof -
  have a: "submissions (events (executeEvmTransaction env config networkConfig tx w))
     \<le> maxRetriesOr3 networkConfig"
    using evmRetryLoop_submissions [of env "maxRetriesOr3 networkConfig" tx 0 w]
    by (simp add: executeEvmTransaction_def throw_def events_def submissions_def
          split: option.splits)
  have b: "sequential False (events (executeEvmTransaction env config networkConfig tx w))"
    using evmRetryLoop_sequential [of env "maxRetriesOr3 networkConfig" tx 0 w]
    by (simp add: executeEvmTransaction_def throw_def events_def split: option.splits)
  have c: "submissions (events (executeApprovalTransaction env config networkConfig tok sp amt w))
     \<le> maxRetriesOr3 networkConfig"
    using approvalRetryLoop_submissions [of env "maxRetriesOr3 networkConfig" tok sp amt 0 w]
    by (simp add: executeApprovalTransaction_def throw_def events_def submissions_def
          split: option.splits)
  have d: "sequential False
      (events (executeApprovalTransaction env config networkConfig tok sp amt w))"
    using approvalRetryLoop_sequential [of env "maxRetriesOr3 networkConfig" tok sp amt 0 w]
    by (simp add: executeApprovalTransaction_def throw_def events_def split: option.splits)
  have e: "maxRetriesOr3 (networkConfig \<lparr> config_maxRetries := None \<rparr>) = 3"
    "maxRetriesOr3 (networkConfig \<lparr> config_maxRetries := Some 0 \<rparr>) = 3"
    "maxRetriesOr3 (networkConfig \<lparr> config_maxRetries := Some (Suc n) \<rparr>) = Suc n"
    by (simp_all add: maxRetriesOr3_def)
  from a b c d e show ?thesis by simp
qed

text \<open>
  The claim as stated fails: with \<open>maxRetries\<close> configured as 0, the swap loop on
  \<open>droppingNode\<close> and the approval loop on \<open>insufficientNode\<close> each submit three times.
\<close>

theorem zero_max_retries_counterexample:
  "config_maxRetries (demoChain (Some 0)) = Some 0
   \<and> submissions
       (events (executeEvmTransaction droppingNode demoConfig (demoChain (Some 0)) demoTx 0))
     = 3
   \<and> submissions
       (events (executeApprovalTransaction insufficientNode demoConfig (demoChain (Some 0))
                  ''0xtoken'' ''0xdex'' 50 0))
     = 3
   \<and> \<not> submissions
       (events (executeEvmTransaction droppingNode demoConfig (demoChain (Some 0)) demoTx 0))
     \<le> 0"
  by (simp add: run_defs approval_defs droppingNode_def insufficientNode_def submissions_def)

text \<open>
  C3. The approval retry loop does not classify errors: on \<open>insufficientNode\<close>, with the
  default of three attempts, \<open>handleTokenApproval\<close> submits three times before it fails
  with the INSUFFICIENT_FUNDS error, where the swap loop on the same node stops after one
  submission.
\<close>

theorem approval_insufficient_funds_retried:
  "result (handleTokenApproval insufficientNode demoConfig (demoChain None) ''1'' ''0xtoken''
             ''50'' 0)
     = Inl (Error (Some ''INSUFFICIENT_FUNDS'')
              ''insufficient funds for intrinsic transaction cost'')
   \<and> submissions
       (events (handleTokenApproval insufficientNode demoConfig (demoChain None) ''1''
                  ''0xtoken'' ''50'' 0))
     = 3
   \<and> submissions
       (events (executeEvmTransaction insufficientNode demoConfig (demoChain None) demoTx 0))
     = 1
   \<and> result (executeEvmTransaction insufficientNode demoConfig (demoChain None) demoTx 0)
     = Inl (newError ''Insufficient funds for transaction'')"
  by (simp add: run_defs approval_defs insufficientNode_def droppingNode_def submissions_def)

text \<open>
  C4. When the dex contract address lookup succeeds, the allowance read answers at least
  the required amount and the amount parses, \<open>handleTokenApproval\<close> submits nothing and
  throws the error \<open>Token already approved for the requested amount\<close>.
\<close>

theorem already_approved_throws:
  assumes "evm_wallet config = Some wal"
    and "getDexContractAddress env chainId w = (Inr dex, w1, t1)"
    and "allowance env tokenAddress (address wal) dex w1 = (Inr currentAllowance, w2)"
    and "bigNumberFrom env amt = Inr requiredAmount"
    and "requiredAmount \<le> currentAllowance"
  shows "result (handleTokenApproval env config networkConfig chainId tokenAddress amt w)
           = Inl (newError ''Token already approved for the requested amount'')
         \<and> submissions
             (events (handleTokenApproval env config networkConfig chainId tokenAddress amt w))
           = 0"
  using assms getDexContractAddress_events [OF assms(2)]
  by (simp add: handleTokenApproval_def getAllowance_def await_def call_def fromResult_def
        throw_def result_def events_def submissions_def)

theorem already_approved_throws_witness:
  "evm_wallet demoConfig = Some \<lparr> address = ''0xme'' \<rparr>
   \<and> getDexContractAddress approvedNode ''1'' 0
       = (Inr ''0xdex'', 0,
          [HttpRequest ''GET'' ''/api/v5/dex/aggregator/supported/chain'' ''1''
             (Inr \<lparr> api_data = Some [\<lparr> dexTokenApproveAddress = Some ''0xdex'' \<rparr>] \<rparr>)])
   \<and> allowance approvedNode ''0xtoken'' ''0xme'' ''0xdex'' 0 = (Inr 100, 0)
   \<and> bigNumberFrom approvedNode ''50'' = Inr 50
   \<and> result (handleTokenApproval approvedNode demoConfig (demoChain None) ''1'' ''0xtoken''
                ''50'' 0)
       = Inl (newError ''Token already approved for the requested amount'')
   \<and> submissions
       (events (handleTokenApproval approvedNode demoConfig (demoChain None) ''1'' ''0xtoken''
                  ''50'' 0))
       = 0"
proof -
  have a: "evm_wallet demoConfig = Some \<lparr> address = ''0xme'' \<rparr>" by (simp add: demoConfig_def)
  have b: "getDexContractAddress approvedNode ''1'' 0
       = (Inr ''0xdex'', 0,
          [HttpRequest ''GET'' ''/api/v5/dex/aggregator/supported/chain'' ''1''
             (Inr \<lparr> api_data = Some [\<lparr> dexTokenApproveAddress = Some ''0xdex'' \<rparr>] \<rparr>)])"
    by (simp add: getDexContractAddress_def await_def call_def resolve_def approvedNode_def
          droppingNode_def)
  have c: "allowance approvedNode ''0xtoken'' (address \<lparr> address = ''0xme'' \<rparr>) ''0xdex'' 0
       = (Inr 100, 0)"
    by (simp add: approvedNode_def droppingNode_def)
  have d: "bigNumberFrom approvedNode ''50'' = Inr 50"
    by (simp add: approvedNode_def droppingNode_def)
  have e: "(50::int) \<le> 100" by simp
  from already_approved_throws [OF a b c d e, of "demoChain None"] a b c d
  show ?thesis by simp
qed

text \<open>The claim as stated fails: the outcome is a thrown error, not a success.\<close>

theorem already_approved_counterexample:
  "isl (result (handleTokenApproval approvedNode demoConfig (demoChain None) ''1'' ''0xtoken''
                  ''50'' 0))
   \<and> result (handleTokenApproval approvedNode demoConfig (demoChain None) ''1'' ''0xtoken''
                ''50'' 0)
       = Inl (newError ''Token already approved for the requested amount'')"
  by (simp add: run_defs approval_defs approvedNode_def droppingNode_def)




text \<open>
  C6. A fee answer without a suggestion takes the fallbacks, 0 for the base fee and
  3000000000 for the priority fee, and every submission bids from the answer of its own
  attempt; a fee query that fails is followed at once by the failure of its attempt with
  that same error, in both retry loops.
\<close>

theorem fee_fallback_and_outage:
  "baseFeeOf (fd \<lparr> fee_maxFeePerGas := None \<rparr>) = 0
   \<and> priorityFeeOf (fd \<lparr> fee_maxPriorityFeePerGas := None \<rparr>) = 3000000000
   \<and> feeRule gasMultiplier None (events (executeEvmTransaction env config networkConfig tx w))
   \<and> feeRule DEFAULT_GAS_MULTIPLIER None
        (events (executeApprovalTransaction env config networkConfig tok sp amt w))
   \<and> feeOutage None (events (executeEvmTransaction env config networkConfig tx w))
   \<and> feeOutage None (events (executeApprovalTransaction env config networkConfig tok sp amt w))"
proof -
  have s: "feeRule gasMultiplier None
      (events (executeEvmTransaction env config networkConfig tx w))"
    using evmRetryLoop_feeRule [of None env "maxRetriesOr3 networkConfig" tx 0 w]
    by (simp add: executeEvmTransaction_def throw_def events_def split: option.splits)
  have a: "feeRule DEFAULT_GAS_MULTIPLIER None
      (events (executeApprovalTransaction env config networkConfig tok sp amt w))"
    using approvalRetryLoop_feeRule [of None env "maxRetriesOr3 networkConfig" tok sp amt 0 w]
    by (simp add: executeApprovalTransaction_def throw_def events_def split: option.splits)
  have so: "feeOutage None (events (executeEvmTransaction env config networkConfig tx w))"
    using evmRetryLoop_feeOutage [of env "maxRetriesOr3 networkConfig" tx 0 w]
    by (simp add: executeEvmTransaction_def throw_def events_def split: option.splits)
  have ao: "feeOutage None
      (events (executeApprovalTransaction env config networkConfig tok sp amt w))"
    using approvalRetryLoop_feeOutage [of env "maxRetriesOr3 networkConfig" tok sp amt 0 w]
    by (simp add: executeApprovalTransaction_def throw_def events_def split: option.splits)
  from s a so ao show ?thesis by (simp add: baseFeeOf_def priorityFeeOf_def)
qed

text \<open>
  The claim as stated fails: on \<open>feeOutageNode\<close> the swap fails with the error of the fee
  query and submits nothing.
\<close>

theorem fee_outage_counterexample:
  "result (executeEvmTransaction feeOutageNode demoConfig (demoChain None) demoTx 0)
     = Inl (Error (Some ''SERVER_ERROR'') ''missing response'')
   \<and> submissions (events (executeEvmTransaction feeOutageNode demoConfig (demoChain None) demoTx 0))
     = 0
   \<and> events (executeEvmTransaction feeOutageNode demoConfig (demoChain (Some 1)) demoTx 0)
     = [GetTransactionCount ''latest'' (Inr 7),
        GetFeeData (Inl (Error (Some ''SERVER_ERROR'') ''missing response'')),
        AttemptFailed 1 (Error (Some ''SERVER_ERROR'') ''missing response'')]"
  by (simp add: run_defs feeOutageNode_def droppingNode_def submissions_def)

text \<open>
  Every transaction a swap sends carries the count most recently answered to
  \<open>getTransactionCount("latest")\<close> in its attempt, plus the number of attempts failed
  before it.
\<close>

lemma swap_nonce_follows_reported_count:
  "nonceRule 0 None (events (executeEvmTransaction env config networkConfig tx w))"
  using evmRetryLoop_nonceRule [of 0 None env "maxRetriesOr3 networkConfig" tx w]
  by (simp add: executeEvmTransaction_def throw_def events_def split: option.splits)

text \<open>
  C7. The swap never reads the transaction count of the wallet's account: it asks the
  provider for the count of the name \<open>latest\<close>. On \<open>addressKeyedNode\<close>, where the account's
  count is 7, every attempt fails at that query and nothing is sent; on \<open>otherCountNode\<close>,
  where the account's count is 7 as well, the nonces sent are 1000 and 1001, not 7 and 8.
  And since the count is read again in each attempt, on \<open>fallingCountNode\<close> the second
  attempt's nonce, 6, is below the first attempt's, 7.
\<close>

theorem nonce_ignores_account:
  "address (the (evm_wallet demoConfig)) = ''0xme''
   \<and> getTransactionCount addressKeyedNode ''0xme'' 0 = (Inr 7, 0)
   \<and> events (executeEvmTransaction addressKeyedNode demoConfig (demoChain (Some 2)) demoTx 0)
     = [GetTransactionCount ''latest''
          (Inl (Error (Some ''UNSUPPORTED_OPERATION'') ''ENS name not configured'')),
        AttemptFailed 1 (Error (Some ''UNSUPPORTED_OPERATION'') ''ENS name not configured''),
        SetTimeout 2000,
        GetTransactionCount ''latest''
          (Inl (Error (Some ''UNSUPPORTED_OPERATION'') ''ENS name not configured'')),
        AttemptFailed 2 (Error (Some ''UNSUPPORTED_OPERATION'') ''ENS name not configured'')]
   \<and> result (executeEvmTransaction addressKeyedNode demoConfig (demoChain (Some 2)) demoTx 0)
     = Inl (Error (Some ''UNSUPPORTED_OPERATION'') ''ENS name not configured'')
   \<and> getTransactionCount otherCountNode ''0xme'' 0 = (Inr 7, 0)
   \<and> nonces (events (executeEvmTransaction otherCountNode demoConfig (demoChain (Some 2))
                        demoTx 0))
     = [1000, 1001]
   \<and> counts (events (executeEvmTransaction fallingCountNode demoConfig (demoChain (Some 2))
                        demoTx 0))
     = [7, 5]
   \<and> nonces (events (executeEvmTransaction fallingCountNode demoConfig (demoChain (Some 2))
                        demoTx 0))
     = [7, 6]"
  by (simp add: run_defs addressKeyedNode_def otherCountNode_def fallingCountNode_def
        droppingNode_def)

text \<open>
  C8. When the attempt numbered \<open>maxRetries\<close> has failed, the run fails with the error of
  that attempt itself, rethrown unchanged (in the swap loop provided its code is neither
  INSUFFICIENT_FUNDS nor NONCE_EXPIRED).
\<close>

theorem retries_exhausted_rethrows:
  "(AttemptFailed (maxRetriesOr3 networkConfig) e
      \<in> set (events (executeEvmTransaction env config networkConfig tx w))
    \<and> code e \<noteq> Some ''INSUFFICIENT_FUNDS'' \<and> code e \<noteq> Some ''NONCE_EXPIRED''
    \<longrightarrow> result (executeEvmTransaction env config networkConfig tx w) = Inl e)
   \<and> (AttemptFailed (maxRetriesOr3 networkConfig) e'
      \<in> set (events (executeApprovalTransaction env config networkConfig tok sp amt w))
    \<longrightarrow> result (executeApprovalTransaction env config networkConfig tok sp amt w) = Inl e')"
proof -
  have s: "result (executeEvmTransaction env config networkConfig tx w) = Inl e"
    if "AttemptFailed (maxRetriesOr3 networkConfig) e
          \<in> set (events (executeEvmTransaction env config networkConfig tx w))"
      "code e \<noteq> Some ''INSUFFICIENT_FUNDS''" "code e \<noteq> Some ''NONCE_EXPIRED''"
    using that evmRetryLoop_exhausted [of "maxRetriesOr3 networkConfig" e env tx 0 w]
    by (cases "evm_wallet config")
       (simp_all add: executeEvmTransaction_def throw_def events_def)
  have a: "result (executeApprovalTransaction env config networkConfig tok sp amt w) = Inl e'"
    if "AttemptFailed (maxRetriesOr3 networkConfig) e'
          \<in> set (events (executeApprovalTransaction env config networkConfig tok sp amt w))"
    using that
      approvalRetryLoop_exhausted [of "maxRetriesOr3 networkConfig" e' env tok sp amt 0 w]
    by (cases "evm_wallet config")
       (simp_all add: executeApprovalTransaction_def throw_def events_def)
  from s a show ?thesis by blast
qed

theorem retries_exhausted_rethrows_witness:
  "AttemptFailed 2 (newError ''Transaction dropped - check network and gas prices'')
     \<in> set (events (executeEvmTransaction droppingNode demoConfig (demoChain (Some 2)) demoTx 0))
   \<and> result (executeEvmTransaction droppingNode demoConfig (demoChain (Some 2)) demoTx 0)
       = Inl (newError ''Transaction dropped - check network and gas prices'')
   \<and> AttemptFailed 3 (Error (Some ''INSUFFICIENT_FUNDS'')
                        ''insufficient funds for intrinsic transaction cost'')
     \<in> set (events (executeApprovalTransaction insufficientNode demoConfig (demoChain None)
                       ''0xtoken'' ''0xdex'' 50 0))
   \<and> result (executeApprovalTransaction insufficientNode demoConfig (demoChain None)
               ''0xtoken'' ''0xdex'' 50 0)
       = Inl (Error (Some ''INSUFFICIENT_FUNDS'')
                ''insufficient funds for intrinsic transaction cost'')"
proof -
  have m: "maxRetriesOr3 (demoChain (Some 2)) = 2" "maxRetriesOr3 (demoChain None) = 3"
    by (simp_all add: maxRetriesOr3_def demoChain_def)
  have c: "code (newError ''Transaction dropped - check network and gas prices'') = None"
    by (simp add: newError_def)
  have s: "AttemptFailed 2 (newError ''Transaction dropped - check network and gas prices'')
     \<in> set (events (executeEvmTransaction droppingNode demoConfig (demoChain (Some 2)) demoTx 0))"
    by (simp add: run_defs droppingNode_def)
  have a: "AttemptFailed 3 (Error (Some ''INSUFFICIENT_FUNDS'')
                        ''insufficient funds for intrinsic transaction cost'')
     \<in> set (events (executeApprovalTransaction insufficientNode demoConfig (demoChain None)
                       ''0xtoken'' ''0xdex'' 50 0))"
    by (simp add: run_defs approval_defs insufficientNode_def droppingNode_def)
  from retries_exhausted_rethrows [of "demoChain (Some 2)"
      "newError ''Transaction dropped - check network and gas prices''"
      droppingNode demoConfig demoTx 0] s c m
  have s': "result (executeEvmTransaction droppingNode demoConfig (demoChain (Some 2)) demoTx 0)
       = Inl (newError ''Transaction dropped - check network and gas prices'')"
    by simp
  from retries_exhausted_rethrows [of "demoChain None" _ insufficientNode demoConfig demoTx 0
      "Error (Some ''INSUFFICIENT_FUNDS'') ''insufficient funds for intrinsic transaction cost''"
      "''0xtoken''" "''0xdex''" 50] a m
  have a': "result (executeApprovalTransaction insufficientNode demoConfig (demoChain None)
               ''0xtoken'' ''0xdex'' 50 0)
       = Inl (Error (Some ''INSUFFICIENT_FUNDS'')
                ''insufficient funds for intrinsic transaction cost'')"
    by simp
  from s s' a a' show ?thesis by simp
qed

text \<open>
  The claim as stated fails: the error of the run is the last attempt's own error, not a
  separate exhaustion error carrying it.
\<close>

theorem retries_exhausted_counterexample:
  "events (executeEvmTransaction droppingNode demoConfig (demoChain (Some 2)) demoTx 0) \<noteq> []
   \<and> last (events (executeEvmTransaction droppingNode demoConfig (demoChain (Some 2)) demoTx 0))
       = AttemptFailed 2 (newError ''Transaction dropped - check network and gas prices'')
   \<and> result (executeEvmTransaction droppingNode demoConfig (demoChain (Some 2)) demoTx 0)
       = Inl (newError ''Transaction dropped - check network and gas prices'')
   \<and> result (executeEvmTransaction droppingNode demoConfig (demoChain (Some 2)) demoTx 0)
       \<noteq> Inl (newError ''Max retries exceeded'')"
  by (simp add: run_defs droppingNode_def)

text \<open>
  C9. A successful \<open>executeSwap\<close> ends with the receipt query for the hash of the last
  accepted submission answering a receipt; the result's transaction identifier is the
  \<open>transactionHash\<close> of that receipt (hence the submitted hash when the receipt carries the
  hash it was asked for), and its explorer link is the explorer base URL, a slash, and the
  identifier.
\<close>

theorem swap_result_identifier:
  "result (EVMSwapExecutor_executeSwap env config networkConfig swapData w) = Inr res \<longrightarrow>
     success res
   \<and> explorerUrl res = explorer networkConfig @ ''/'' @ transactionId res
   \<and> collect submittedHash
        (events (EVMSwapExecutor_executeSwap env config networkConfig swapData w)) \<noteq> []
   \<and> (\<exists>rcpt.
         last (events (EVMSwapExecutor_executeSwap env config networkConfig swapData w))
           = GetTransactionReceipt
               (last (collect submittedHash
                  (events (EVMSwapExecutor_executeSwap env config networkConfig swapData w))))
               (Inr (Some rcpt))
         \<and> transactionId res = transactionHash rcpt
         \<and> (transactionHash rcpt
               = last (collect submittedHash
                   (events (EVMSwapExecutor_executeSwap env config networkConfig swapData w)))
             \<longrightarrow> transactionId res
               = last (collect submittedHash
                   (events (EVMSwapExecutor_executeSwap env config networkConfig swapData w)))))"
proof
  assume ok: "result (EVMSwapExecutor_executeSwap env config networkConfig swapData w) = Inr res"
  then obtain q qs rr tx where sd: "swap_data swapData = Some (q # qs)"
    and rr: "quote_routerResult q = Some rr" and tx: "quote_tx q = Some tx"
    by (auto simp: EVMSwapExecutor_executeSwap_def throw_def result_def
             split: option.splits list.splits)
  obtain r w' evs where run: "executeEvmTransaction env config networkConfig tx w = (r, w', evs)"
    by (cases "executeEvmTransaction env config networkConfig tx w")
  from ok sd rr tx run obtain rc where r: "r = Inr rc"
    by (cases r) (auto simp: EVMSwapExecutor_executeSwap_def await_def result_def)
  from sd rr tx run r have whole:
    "EVMSwapExecutor_executeSwap env config networkConfig swapData w
       = (Inr (formatSwapResult env networkConfig (transactionHash rc) rr), w', evs)"
    by (simp add: EVMSwapExecutor_executeSwap_def await_def resolve_def)
  with ok have res: "res = formatSwapResult env networkConfig (transactionHash rc) rr"
    by (simp add: result_def)
  from run r have "evmRetryLoop env (maxRetriesOr3 networkConfig) tx 0 w = (Inr rc, w', evs)"
    by (cases "evm_wallet config") (simp_all add: executeEvmTransaction_def throw_def)
  from evmRetryLoop_success [OF this] whole res
  show "success res
   \<and> explorerUrl res = explorer networkConfig @ ''/'' @ transactionId res
   \<and> collect submittedHash
        (events (EVMSwapExecutor_executeSwap env config networkConfig swapData w)) \<noteq> []
   \<and> (\<exists>rcpt.
         last (events (EVMSwapExecutor_executeSwap env config networkConfig swapData w))
           = GetTransactionReceipt
               (last (collect submittedHash
                  (events (EVMSwapExecutor_executeSwap env config networkConfig swapData w))))
               (Inr (Some rcpt))
         \<and> transactionId res = transactionHash rcpt
         \<and> (transactionHash rcpt
               = last (collect submittedHash
                   (events (EVMSwapExecutor_executeSwap env config networkConfig swapData w)))
             \<longrightarrow> transactionId res
               = last (collect submittedHash
                   (events (EVMSwapExecutor_executeSwap env config networkConfig swapData w)))))"
    by (simp add: events_def formatSwapResult_def)
qed

theorem swap_result_identifier_witness:
  "result (EVMSwapExecutor_executeSwap confirmingNode demoConfig (demoChain None) demoSwap 0)
     = Inr demoResult
   \<and> collect submittedHash
       (events (EVMSwapExecutor_executeSwap confirmingNode demoConfig (demoChain None) demoSwap 0))
     = [''0xabc'']
   \<and> success demoResult
   \<and> transactionId demoResult = ''0xabc''
   \<and> explorerUrl demoResult = explorer (demoChain None) @ ''/'' @ transactionId demoResult"
proof -
  have r: "result
      (EVMSwapExecutor_executeSwap confirmingNode demoConfig (demoChain None) demoSwap 0)
     = Inr demoResult"
    by (simp add: run_defs swap_defs)
  have h: "collect submittedHash
       (events (EVMSwapExecutor_executeSwap confirmingNode demoConfig (demoChain None) demoSwap 0))
     = [''0xabc'']"
    by (simp add: run_defs swap_defs)
  have t: "transactionId demoResult = ''0xabc''" by (simp add: demoResult_def)
  from swap_result_identifier [of confirmingNode demoConfig "demoChain None" demoSwap 0
      demoResult] r
  have "success demoResult
    \<and> explorerUrl demoResult = explorer (demoChain None) @ ''/'' @ transactionId demoResult"
    by blast
  with r h t show ?thesis by simp
qed

text \<open>The claim as stated fails: the link has a slash between the base URL and the identifier.\<close>

theorem explorer_link_counterexample:
  "result (EVMSwapExecutor_executeSwap confirmingNode demoConfig (demoChain None) demoSwap 0)
     = Inr demoResult
   \<and> explorer (demoChain None) = ''https://etherscan.io/tx''
   \<and> transactionId demoResult = ''0xabc''
   \<and> explorerUrl demoResult = ''https://etherscan.io/tx/0xabc''
   \<and> explorerUrl demoResult \<noteq> explorer (demoChain None) @ transactionId demoResult"
  by (simp add: run_defs swap_defs)

text \<open>
  C10. \<open>executeSwap\<close> of the approval executor throws
  \<open>Swap execution not supported in approval executor\<close> on every input, and causes no
  event and no change of the world.
\<close>

theorem approve_executor_rejects_swap:
  "EVMApproveExecutor_executeSwap env config networkConfig swapData params w =
     (Inl (newError ''Swap execution not supported in approval executor''), w, [])"
  by (simp add: EVMApproveExecutor_executeSwap_def throw_def)

end
